theory Spec2Isabelle
  imports Complex_Main
begin

unbundle bit_operations_syntax

section \<open>JavaScript numbers\<close>

text \<open>
  The segment ratios that reach \<open>WebGLEngine.setSegments\<close> are JavaScript numbers, and the
  scan for the smallest ratio starts from \<open>Infinity\<close>. The blend computation is therefore
  modelled over the reals extended by the two infinities and NaN, with the IEEE 754
  results of the operations the source uses. Rounding is not modelled (a finite value is
  a real), and the two zeros are one value.
\<close>

datatype jsnum = Fin real | PosInf | NegInf | NaN

text \<open>\<open>a === b\<close> on numbers: NaN equals nothing.\<close>

fun js_strict_eq :: "jsnum \<Rightarrow> jsnum \<Rightarrow> bool" where
  "js_strict_eq NaN _ = False"
| "js_strict_eq _ NaN = False"
| "js_strict_eq (Fin a) (Fin b) = (a = b)"
| "js_strict_eq PosInf PosInf = True"
| "js_strict_eq NegInf NegInf = True"
| "js_strict_eq _ _ = False"

text \<open>\<open>a < b\<close>: false as soon as one side is NaN.\<close>

fun js_lt :: "jsnum \<Rightarrow> jsnum \<Rightarrow> bool" where
  "js_lt NaN _ = False"
| "js_lt _ NaN = False"
| "js_lt (Fin a) (Fin b) = (a < b)"
| "js_lt (Fin a) PosInf = True"
| "js_lt NegInf (Fin b) = True"
| "js_lt NegInf PosInf = True"
| "js_lt _ _ = False"

text \<open>
  \<open>a / b\<close>: a finite dividend over zero gives an infinity (or NaN for \<open>0 / 0\<close>), an
  infinity over an infinity gives NaN.
\<close>

fun js_div :: "jsnum \<Rightarrow> jsnum \<Rightarrow> jsnum" where
  "js_div NaN _ = NaN"
| "js_div _ NaN = NaN"
| "js_div (Fin a) (Fin b) =
     (if b = 0 then (if a = 0 then NaN else if 0 < a then PosInf else NegInf)
      else Fin (a / b))"
| "js_div (Fin a) PosInf = Fin 0"
| "js_div (Fin a) NegInf = Fin 0"
| "js_div PosInf (Fin b) = (if b < 0 then NegInf else PosInf)"
| "js_div NegInf (Fin b) = (if b < 0 then PosInf else NegInf)"
| "js_div _ _ = NaN"

text \<open>\<open>Math.min\<close> and \<open>Math.max\<close> of two numbers: NaN when one of them is NaN.\<close>

fun Math_min :: "jsnum \<Rightarrow> jsnum \<Rightarrow> jsnum" where
  "Math_min NaN _ = NaN"
| "Math_min _ NaN = NaN"
| "Math_min a b = (if js_lt b a then b else a)"

fun Math_max :: "jsnum \<Rightarrow> jsnum \<Rightarrow> jsnum" where
  "Math_max NaN _ = NaN"
| "Math_max _ NaN = NaN"
| "Math_max a b = (if js_lt a b then b else a)"

text \<open>\<open>a <= b\<close> and \<open>a >= b\<close>: false as soon as one side is NaN.\<close>

definition js_le :: "jsnum \<Rightarrow> jsnum \<Rightarrow> bool" where
  "js_le a b = (js_lt a b \<or> js_strict_eq a b)"

definition js_ge :: "jsnum \<Rightarrow> jsnum \<Rightarrow> bool" where
  "js_ge a b = js_le b a"

text \<open>
  \<open>a + b\<close>, \<open>a - b\<close> and \<open>a * b\<close>: the sum of opposite infinities and the product of zero
  and an infinity are NaN.
\<close>

fun js_neg :: "jsnum \<Rightarrow> jsnum" where
  "js_neg (Fin a) = Fin (- a)"
| "js_neg PosInf = NegInf"
| "js_neg NegInf = PosInf"
| "js_neg NaN = NaN"

fun js_add :: "jsnum \<Rightarrow> jsnum \<Rightarrow> jsnum" where
  "js_add NaN _ = NaN"
| "js_add _ NaN = NaN"
| "js_add (Fin a) (Fin b) = Fin (a + b)"
| "js_add (Fin a) b = b"
| "js_add a (Fin b) = a"
| "js_add PosInf PosInf = PosInf"
| "js_add NegInf NegInf = NegInf"
| "js_add _ _ = NaN"

definition js_sub :: "jsnum \<Rightarrow> jsnum \<Rightarrow> jsnum" where
  "js_sub a b = js_add a (js_neg b)"

fun js_mul :: "jsnum \<Rightarrow> jsnum \<Rightarrow> jsnum" where
  "js_mul NaN _ = NaN"
| "js_mul _ NaN = NaN"
| "js_mul (Fin a) (Fin b) = Fin (a * b)"
| "js_mul (Fin a) PosInf = (if a = 0 then NaN else if 0 < a then PosInf else NegInf)"
| "js_mul (Fin a) NegInf = (if a = 0 then NaN else if 0 < a then NegInf else PosInf)"
| "js_mul PosInf (Fin b) = (if b = 0 then NaN else if 0 < b then PosInf else NegInf)"
| "js_mul NegInf (Fin b) = (if b = 0 then NaN else if 0 < b then NegInf else PosInf)"
| "js_mul PosInf PosInf = PosInf"
| "js_mul NegInf NegInf = PosInf"
| "js_mul _ _ = NegInf"

section \<open>The render engine (webgl-engine.ts)\<close>

subsection \<open>The WebGL state the engine drives\<close>

text \<open>
  Only the part of the WebGL2 context that the engine's control flow decides is kept: which
  framebuffer is bound, which texture is bound to which texture unit, the uniforms, the
  size of the storage allocated for every offscreen target, and a log with one entry for
  every \<open>drawArrays\<close> call that records the bindings the call ran with. Not modelled are
  the pixels (and with them \<open>gl.clear\<close> and the blit that resolves the multisampled buffer),
  the framebuffer attachments, which the constructor sets once, the drawing-buffer size of
  the canvas (\<open>resizeCanvasToDisplaySize\<close>), the vertex array object and the shaders.
\<close>

definition MAX_SUPPORTED_SEGMENTS :: nat where
  "MAX_SUPPORTED_SEGMENTS = 4"

type_synonym 'a Vec4 = "'a \<times> 'a \<times> 'a \<times> 'a"

datatype framebuffer = Pingpong_fb nat | Scene_fb | Scene_fbMSAA

datatype texture = Pingpong_rbuf nat | Scene_texture

datatype renderbuffer = Scene_rbMSAA

datatype storage = Texture_storage texture | Renderbuffer_storage renderbuffer

datatype fragment_pass =
    FRAGMENT_PASS_PASSTHROUGH
  | FRAGMENT_PASS_NORMAL
  | FRAGMENT_PASS_BLUR
  | FRAGMENT_PASS_COMPOSITE
  | FRAGMENT_PASS_TONEMAP
  | FRAGMENT_PASS_BRIGHTNESS

datatype buffer_data = No_data | Triangle_data "jsnum list" | Rectangle real real

datatype fb_variant = Read | Draw | Both

datatype js_error = TypeError

record draw_call =
  dc_framebuffer :: "framebuffer option"
  dc_pass :: fragment_pass
  dc_texture0 :: "texture option"
  dc_texture1 :: "texture option"
  dc_blur_horizontal :: nat
  dc_count :: nat

record Segment =
  color :: "real Vec4"
  ratio :: jsnum

record gl_context =
  clientWidth :: real
  clientHeight :: real
  draw_framebuffer :: "framebuffer option"
  read_framebuffer :: "framebuffer option"
  active_texture :: nat
  bound_texture :: "nat \<Rightarrow> texture option"
  bound_renderbuffer :: "renderbuffer option"
  array_buffer :: buffer_data
  viewport :: "real \<times> real"
  u_resolution :: "real \<times> real"
  u_matrix :: "real list"
  u_pass :: fragment_pass
  u_blur_horizontal :: nat
  u_blendRatio :: jsnum
  u_segments :: "Segment list"
  storage_size :: "storage \<Rightarrow> int \<times> int"
  allocations :: "(storage \<times> int \<times> int) list"
  draw_calls :: "draw_call list"

text \<open>\<open>gl.bindFramebuffer\<close>: the target \<open>FRAMEBUFFER\<close> sets both bindings. \<open>None\<close> is the canvas.\<close>

definition bindFramebuffer :: "fb_variant \<Rightarrow> framebuffer option \<Rightarrow> gl_context \<Rightarrow> gl_context" where
  "bindFramebuffer variant fbo g =
     (case variant of
        Read \<Rightarrow> g\<lparr>read_framebuffer := fbo\<rparr>
      | Draw \<Rightarrow> g\<lparr>draw_framebuffer := fbo\<rparr>
      | Both \<Rightarrow> g\<lparr>draw_framebuffer := fbo, read_framebuffer := fbo\<rparr>)"

text \<open>\<open>gl.bindTexture(gl.TEXTURE_2D, t)\<close> binds to the active texture unit.\<close>

definition bindTexture :: "texture option \<Rightarrow> gl_context \<Rightarrow> gl_context" where
  "bindTexture t g = g\<lparr>bound_texture := (bound_texture g)(active_texture g := t)\<rparr>"

definition activeTexture :: "nat \<Rightarrow> gl_context \<Rightarrow> gl_context" where
  "activeTexture unit g = g\<lparr>active_texture := unit\<rparr>"

definition bindRenderbuffer :: "renderbuffer option \<Rightarrow> gl_context \<Rightarrow> gl_context" where
  "bindRenderbuffer rb g = g\<lparr>bound_renderbuffer := rb\<rparr>"

text \<open>
  \<open>gl.texImage2D\<close> and \<open>gl.renderbufferStorageMultisample\<close> give new storage to whatever
  is bound; with nothing bound WebGL records an error and changes nothing.
\<close>

definition texImage2D :: "int \<Rightarrow> int \<Rightarrow> gl_context \<Rightarrow> gl_context" where
  "texImage2D w h g =
     (case bound_texture g (active_texture g) of
        None \<Rightarrow> g
      | Some t \<Rightarrow>
          g\<lparr>storage_size := (storage_size g)(Texture_storage t := (w, h)),
            allocations := allocations g @ [(Texture_storage t, w, h)]\<rparr>)"

definition renderbufferStorageMultisample :: "int \<Rightarrow> int \<Rightarrow> gl_context \<Rightarrow> gl_context" where
  "renderbufferStorageMultisample w h g =
     (case bound_renderbuffer g of
        None \<Rightarrow> g
      | Some rb \<Rightarrow>
          g\<lparr>storage_size := (storage_size g)(Renderbuffer_storage rb := (w, h)),
            allocations := allocations g @ [(Renderbuffer_storage rb, w, h)]\<rparr>)"

definition bufferData :: "buffer_data \<Rightarrow> gl_context \<Rightarrow> gl_context" where
  "bufferData d g = g\<lparr>array_buffer := d\<rparr>"

definition uniformMatrix3fv :: "real list \<Rightarrow> gl_context \<Rightarrow> gl_context" where
  "uniformMatrix3fv m g = g\<lparr>u_matrix := m\<rparr>"

definition uniform_pass :: "fragment_pass \<Rightarrow> gl_context \<Rightarrow> gl_context" where
  "uniform_pass p g = g\<lparr>u_pass := p\<rparr>"

definition uniform_blur_horizontal :: "nat \<Rightarrow> gl_context \<Rightarrow> gl_context" where
  "uniform_blur_horizontal v g = g\<lparr>u_blur_horizontal := v\<rparr>"

text \<open>\<open>gl.drawArrays\<close>: one log entry with the bindings and uniforms of the moment.\<close>

definition drawArrays :: "nat \<Rightarrow> gl_context \<Rightarrow> gl_context" where
  "drawArrays n g =
     g\<lparr>draw_calls := draw_calls g @
        [\<lparr>dc_framebuffer = draw_framebuffer g, dc_pass = u_pass g,
          dc_texture0 = bound_texture g 0, dc_texture1 = bound_texture g 1,
          dc_blur_horizontal = u_blur_horizontal g, dc_count = n\<rparr>]\<rparr>"

subsection \<open>The engine and its setters\<close>

record WebGLEngine =
  gl :: gl_context
  bloomEnabled :: bool
  nBloomPasses :: nat
  textureSizeModifier :: real
  msaaEnabled :: bool
  hdrFactor :: real

datatype bloom_intensity = Intensity_1 | Intensity_2 | Intensity_4 | Intensity_8

text \<open>The parameter type \<open>1|2|4|8\<close> of \<open>setBloomIntensity\<close>, read as a number.\<close>

fun intensity_value :: "bloom_intensity \<Rightarrow> nat" where
  "intensity_value Intensity_1 = 1"
| "intensity_value Intensity_2 = 2"
| "intensity_value Intensity_4 = 4"
| "intensity_value Intensity_8 = 8"

definition setBloomEnabled :: "bool \<Rightarrow> WebGLEngine \<Rightarrow> WebGLEngine" where
  "setBloomEnabled enabled e = e\<lparr>bloomEnabled := enabled\<rparr>"

definition setBloomIntensity :: "bloom_intensity \<Rightarrow> WebGLEngine \<Rightarrow> WebGLEngine" where
  "setBloomIntensity intensity e = e\<lparr>nBloomPasses := intensity_value intensity * 8\<rparr>"

definition setMSAAEnabled :: "bool \<Rightarrow> WebGLEngine \<Rightarrow> WebGLEngine" where
  "setMSAAEnabled enabled e = e\<lparr>msaaEnabled := enabled\<rparr>"

text \<open>\<open>textureSize\<close>: the canvas's client size times the modifier, rounded up.\<close>

definition textureSize :: "WebGLEngine \<Rightarrow> int \<times> int" where
  "textureSize e =
     (\<lceil>clientWidth (gl e) * textureSizeModifier e\<rceil>,
      \<lceil>clientHeight (gl e) * textureSizeModifier e\<rceil>)"

text \<open>
  \<open>onResize\<close>: new storage at the texture size for both ping-pong textures, the scene
  texture and the multisampled renderbuffer; the bindings it used are released.
\<close>

definition onResize :: "WebGLEngine \<Rightarrow> WebGLEngine" where
  "onResize e =
     (let (cWidth, cHeight) = textureSize e;
          g0 = gl e;
          g1 = texImage2D cWidth cHeight (bindTexture (Some (Pingpong_rbuf 0)) g0);
          g2 = texImage2D cWidth cHeight (bindTexture (Some (Pingpong_rbuf 1)) g1);
          g3 = texImage2D cWidth cHeight (bindTexture (Some Scene_texture) g2);
          g4 = bindTexture None g3;
          g5 = renderbufferStorageMultisample cWidth cHeight
                 (bindRenderbuffer (Some Scene_rbMSAA) g4);
          g6 = bindRenderbuffer None g5
      in e\<lparr>gl := g6\<rparr>)"

definition setTextureSizeModifier :: "real \<Rightarrow> WebGLEngine \<Rightarrow> WebGLEngine" where
  "setTextureSizeModifier modifier e = onResize (e\<lparr>textureSizeModifier := min modifier 2\<rparr>)"

subsection \<open>setSegments\<close>

text \<open>
  The first loop of \<open>setSegments\<close> uploads colour and ratio of segment \<open>i % segments.length\<close>
  into uniform slot \<open>i\<close>, the colour channels (not alpha) scaled by \<open>hdrFactor\<close>.
\<close>

definition upload_segment :: "real \<Rightarrow> Segment list \<Rightarrow> nat \<Rightarrow> gl_context \<Rightarrow> gl_context" where
  "upload_segment hdr segments i g =
     (let seg = segments ! (i mod length segments);
          (r, g', b, a) = color seg
      in g\<lparr>u_segments := (u_segments g)
             [i := \<lparr>color = (r * hdr, g' * hdr, b * hdr, a), ratio = ratio seg\<rparr>]\<rparr>)"

text \<open>
  The second loop: the smallest ratio that is not \<open>=== 0.0\<close>, starting from \<open>Infinity\<close>.
\<close>

definition blend_scan_step :: "Segment \<Rightarrow> jsnum \<Rightarrow> jsnum" where
  "blend_scan_step seg blendRatio =
     (if js_strict_eq (ratio seg) (Fin 0) then blendRatio
      else if js_lt (ratio seg) blendRatio then ratio seg
      else blendRatio)"

definition blend_scan :: "Segment list \<Rightarrow> jsnum" where
  "blend_scan segments = fold blend_scan_step segments PosInf"

text \<open>\<open>blendRatio /= 2.0\<close>, the only division of \<open>setSegments\<close>.\<close>

definition blend_halved :: "Segment list \<Rightarrow> jsnum" where
  "blend_halved segments = js_div (blend_scan segments) (Fin 2)"

text \<open>\<open>Math.max(Math.min(blendRatio, 0.1), 0.01)\<close>.\<close>

definition blend_clamped :: "Segment list \<Rightarrow> jsnum" where
  "blend_clamped segments = Math_max (Math_min (blend_halved segments) (Fin (1 / 10))) (Fin (1 / 100))"

text \<open>
  With an empty array \<open>i % segments.length\<close> is NaN, \<open>segments[NaN]\<close> is undefined and
  reading its colour throws; the type \<open>Vec4<Segment>\<close> rules that out for typed callers.
\<close>

definition setSegments :: "Segment list \<Rightarrow> WebGLEngine \<Rightarrow> js_error + WebGLEngine" where
  "setSegments segments e =
     (if segments = [] then Inl TypeError
      else
        let g1 = fold (upload_segment (hdrFactor e) segments) [0..<MAX_SUPPORTED_SEGMENTS] (gl e)
        in Inr (e\<lparr>gl := g1\<lparr>u_blendRatio := blend_clamped segments\<rparr>\<rparr>))"

subsection \<open>The frame: draw and bloomPass\<close>

definition setFramebuffer ::
    "framebuffer option \<Rightarrow> real \<Rightarrow> real \<Rightarrow> fb_variant \<Rightarrow> gl_context \<Rightarrow> gl_context" where
  "setFramebuffer fbo width height variant g =
     (bindFramebuffer variant fbo g)\<lparr>u_resolution := (width, height), viewport := (width, height)\<rparr>"

definition setFramebufferRectangle :: "real \<Rightarrow> real \<Rightarrow> gl_context \<Rightarrow> gl_context" where
  "setFramebufferRectangle width height g = bufferData (Rectangle width height) g"

text \<open>
  One iteration of the blur loop of \<open>bloomPass\<close>: the direction uniform, the framebuffer of
  slot \<open>pass % 2\<close>, one draw, then that slot's texture is bound for the next pass to read and
  remembered as \<open>lastActiveTexture\<close>.
\<close>

definition blur_iteration :: "real \<Rightarrow> real \<Rightarrow> nat \<Rightarrow> gl_context \<times> nat \<Rightarrow> gl_context \<times> nat" where
  "blur_iteration cWidth cHeight pass st =
     (let g1 = uniform_blur_horizontal (pass mod 2) (fst st);
          g2 = setFramebuffer (Some (Pingpong_fb (pass mod 2))) cWidth cHeight Both g1;
          g3 = drawArrays 6 g2;
          g4 = bindTexture (Some (Pingpong_rbuf (pass mod 2))) g3
      in (g4, pass mod 2))"

text \<open>
  \<open>bloomPass\<close>, first part: the brightness map of the source is drawn into the second
  ping-pong slot, whose texture is then bound for the first blur pass to read.
\<close>

definition bloom_brightness :: "texture \<Rightarrow> real \<Rightarrow> real \<Rightarrow> gl_context \<Rightarrow> gl_context" where
  "bloom_brightness sourceTexture cWidth cHeight g =
     (let g1 = setFramebufferRectangle cWidth cHeight g;
          g2 = setFramebuffer (Some (Pingpong_fb 1)) cWidth cHeight Both g1;
          g3 = bindTexture (Some sourceTexture) g2;
          g4 = uniform_pass FRAGMENT_PASS_BRIGHTNESS g3;
          g5 = drawArrays 6 g4;
          g6 = bindTexture (Some (Pingpong_rbuf 1)) g5
      in uniform_pass FRAGMENT_PASS_BLUR g6)"

text \<open>
  \<open>bloomPass\<close>, last part: the framebuffer of slot \<open>lastActiveTexture ^ 1\<close>, the source on the
  active unit, the texture of slot \<open>lastActiveTexture\<close> on unit 1, the composite draw, and the
  release of the bindings.
\<close>

definition bloom_composite ::
    "texture \<Rightarrow> nat \<Rightarrow> real \<Rightarrow> real \<Rightarrow> gl_context \<Rightarrow> gl_context" where
  "bloom_composite sourceTexture lastActiveTexture cWidth cHeight g =
     (let g1 = setFramebuffer (Some (Pingpong_fb (lastActiveTexture XOR 1))) cWidth cHeight Both g;
          g2 = uniform_pass FRAGMENT_PASS_COMPOSITE g1;
          g3 = bindTexture (Some sourceTexture) g2;
          g4 = activeTexture 1 g3;
          g5 = bindTexture (Some (Pingpong_rbuf lastActiveTexture)) g4;
          g6 = drawArrays 6 g5;
          g7 = bindTexture None g6;
          g8 = activeTexture 0 g7;
          g9 = bindTexture None g8
      in bindFramebuffer Both None g9)"

text \<open>
  \<open>bloomPass\<close>: brightness, then \<open>nPasses * 2\<close> blur iterations starting with
  \<open>lastActiveTexture = 0\<close>, then the composite; the result is the texture of the slot the
  composite was drawn into.
\<close>

definition bloomPass :: "texture \<Rightarrow> nat \<Rightarrow> WebGLEngine \<Rightarrow> texture \<times> WebGLEngine" where
  "bloomPass sourceTexture nPasses e =
     (let (cw, ch) = textureSize e;
          cWidth = real_of_int cw; cHeight = real_of_int ch;
          g1 = bloom_brightness sourceTexture cWidth cHeight (gl e);
          (g2, lastActiveTexture) =
             fold (blur_iteration cWidth cHeight) [0..<nPasses * 2] (g1, 0);
          g3 = bloom_composite sourceTexture lastActiveTexture cWidth cHeight g2
      in (Pingpong_rbuf (lastActiveTexture XOR 1), e\<lparr>gl := g3\<rparr>))"

text \<open>
  \<open>draw\<close>, first part: the rays are drawn into the scene target (the multisampled one when
  MSAA is on, which is then resolved into the scene texture by a blit).
\<close>

definition draw_scene ::
    "bool \<Rightarrow> jsnum list \<Rightarrow> nat \<Rightarrow> real list \<Rightarrow> real \<Rightarrow> real \<Rightarrow> gl_context \<Rightarrow> gl_context" where
  "draw_scene msaa triangleData count matrix cWidth cHeight g =
     (let g1 = (if msaa
                then setFramebuffer (Some Scene_fbMSAA) cWidth cHeight Both g
                else setFramebuffer (Some Scene_fb) cWidth cHeight Both g);
          g2 = uniform_pass FRAGMENT_PASS_NORMAL g1;
          g3 = uniformMatrix3fv matrix g2;
          g4 = bufferData (Triangle_data triangleData) g3;
          g5 = drawArrays count g4;
          g6 = (if msaa
                then bindFramebuffer Draw None (bindFramebuffer Read None
                       (bindFramebuffer Draw (Some Scene_fb)
                         (bindFramebuffer Read (Some Scene_fbMSAA) g5)))
                else g5)
      in setFramebuffer (Some Scene_fb) cWidth cHeight Both g6)"

text \<open>
  \<open>draw\<close>, last part: tone mapping of the output texture into the second ping-pong slot, and
  the final pass of that slot's texture onto the canvas (framebuffer \<open>None\<close>).
\<close>

definition draw_present :: "texture \<Rightarrow> real \<Rightarrow> real \<Rightarrow> gl_context \<Rightarrow> gl_context" where
  "draw_present outputTexture cWidth cHeight g =
     (let g1 = setFramebufferRectangle cWidth cHeight g;
          g2 = bindTexture (Some outputTexture) g1;
          g3 = setFramebuffer (Some (Pingpong_fb 1)) cWidth cHeight Both g2;
          g4 = uniform_pass FRAGMENT_PASS_TONEMAP g3;
          g5 = drawArrays 6 g4;
          g6 = bindTexture None g5;
          g7 = setFramebuffer None (clientWidth g6) (clientHeight g6) Both g6;
          g8 = bindTexture (Some (Pingpong_rbuf 1)) g7;
          g9 = uniform_pass FRAGMENT_PASS_PASSTHROUGH g8;
          g10 = drawArrays 6 g9
      in bindTexture None g10)"

text \<open>\<open>draw\<close>: the scene, bloom when it is enabled, and the presentation.\<close>

definition draw :: "jsnum list \<Rightarrow> nat \<Rightarrow> real list \<Rightarrow> WebGLEngine \<Rightarrow> WebGLEngine" where
  "draw triangleData count matrix e =
     (let (cw, ch) = textureSize e;
          cWidth = real_of_int cw; cHeight = real_of_int ch;
          g1 = draw_scene (msaaEnabled e) triangleData count matrix cWidth cHeight (gl e);
          (outputTexture, e1) =
             (if bloomEnabled e then bloomPass Scene_texture (nBloomPasses e) (e\<lparr>gl := g1\<rparr>)
              else (Scene_texture, e\<lparr>gl := g1\<rparr>))
      in e1\<lparr>gl := draw_present outputTexture cWidth cHeight (gl e1)\<rparr>)"

text \<open>
  The constructor: the defaults (\<open>devicePixelRatio\<close> is the window's), the four segment
  uniform slots, and the first allocation of the offscreen targets at the texture size, in
  the constructor's order. At the end the framebuffer and the texture are unbound; the
  renderbuffer stays bound. The context before the constructor is \<open>initial_gl\<close>, for a
  canvas of the given client size.
\<close>

definition initial_gl :: "real \<Rightarrow> real \<Rightarrow> gl_context" where
  "initial_gl w h =
     \<lparr>clientWidth = w, clientHeight = h,
      draw_framebuffer = None, read_framebuffer = None,
      active_texture = 0, bound_texture = (\<lambda>_. None), bound_renderbuffer = None,
      array_buffer = No_data, viewport = (w, h), u_resolution = (0, 0), u_matrix = [],
      u_pass = FRAGMENT_PASS_PASSTHROUGH, u_blur_horizontal = 0, u_blendRatio = Fin 0,
      u_segments = replicate MAX_SUPPORTED_SEGMENTS \<lparr>color = (0, 0, 0, 0), ratio = Fin 0\<rparr>,
      storage_size = (\<lambda>_. (0, 0)), allocations = [], draw_calls = []\<rparr>"

definition new_WebGLEngine :: "real \<Rightarrow> real \<Rightarrow> real \<Rightarrow> WebGLEngine" where
  "new_WebGLEngine w h devicePixelRatio =
     (let e = \<lparr>gl = initial_gl w h, bloomEnabled = True, nBloomPasses = 32,
                textureSizeModifier = min devicePixelRatio 2, msaaEnabled = True,
                hdrFactor = 10\<rparr>;
          (cWidth, cHeight) = textureSize e;
          g1 = texImage2D cWidth cHeight
                 (bindTexture (Some (Pingpong_rbuf 0))
                   (bindFramebuffer Both (Some (Pingpong_fb 0)) (gl e)));
          g2 = texImage2D cWidth cHeight
                 (bindTexture (Some (Pingpong_rbuf 1))
                   (bindFramebuffer Both (Some (Pingpong_fb 1)) g1));
          g3 = renderbufferStorageMultisample cWidth cHeight
                 (bindRenderbuffer (Some Scene_rbMSAA)
                   (bindFramebuffer Both (Some Scene_fbMSAA) g2));
          g4 = texImage2D cWidth cHeight
                 (bindTexture (Some Scene_texture)
                   (bindFramebuffer Both (Some Scene_fb) g3));
          g5 = bindTexture None (bindFramebuffer Both None g4)
      in e\<lparr>gl := g5\<rparr>)"

section \<open>Geometry helpers (util/math.ts)\<close>

text \<open>
  \<open>coordsForRay\<close>: the outer radius is the ray's current radius, which the ray movement may
  have left infinite or NaN, so the coordinates are JavaScript numbers.
\<close>

definition coordsForRay :: "real \<Rightarrow> real \<Rightarrow> real \<Rightarrow> jsnum \<Rightarrow> jsnum list" where
  "coordsForRay radians width innerRadius outerRadius =
     (let rad1 = radians - width; rad2 = radians; rad3 = radians + width
      in [Fin (cos rad1 * innerRadius), Fin (sin rad1 * innerRadius),
          js_mul (Fin (cos rad2)) outerRadius, js_mul (Fin (sin rad2)) outerRadius,
          Fin (cos rad3 * innerRadius), Fin (sin rad3 * innerRadius)])"

definition translationMatrix :: "real \<Rightarrow> real \<Rightarrow> real list" where
  "translationMatrix tx ty = [1, 0, 0, 0, 1, 0, tx, ty, 1]"

definition rotationMatrix :: "real \<Rightarrow> real list" where
  "rotationMatrix rad = (let c = cos rad; s = sin rad in [c, - s, 0, s, c, 0, 0, 0, 1])"

fun mat3mul :: "real list \<Rightarrow> real list \<Rightarrow> real list" where
  "mat3mul [a00, a01, a02, a10, a11, a12, a20, a21, a22]
           [b00, b01, b02, b10, b11, b12, b20, b21, b22] =
     [b00 * a00 + b01 * a10 + b02 * a20,
      b00 * a01 + b01 * a11 + b02 * a21,
      b00 * a02 + b01 * a12 + b02 * a22,
      b10 * a00 + b11 * a10 + b12 * a20,
      b10 * a01 + b11 * a11 + b12 * a21,
      b10 * a02 + b11 * a12 + b12 * a22,
      b20 * a00 + b21 * a10 + b22 * a20,
      b20 * a01 + b21 * a11 + b22 * a21,
      b20 * a02 + b21 * a12 + b22 * a22]"
| "mat3mul _ _ = []"

text \<open>
  \<open>mat3mul\<close> is only applied to the two nine-element matrices above; the last equation is
  there for totality.
\<close>

text \<open>The remainder \<open>a % b\<close> on finite numbers: the quotient is truncated toward zero.\<close>

definition js_rem :: "real \<Rightarrow> real \<Rightarrow> real" where
  "js_rem a b = a - b * real_of_int (if 0 \<le> a / b then \<lfloor>a / b\<rfloor> else \<lceil>a / b\<rceil>)"

section \<open>The indicator (iris-indicator.ts)\<close>

text \<open>
  The indicator's numbers are modelled as reals, with exact arithmetic, but for the ray
  movement: nothing validates the movement period \<open>rayMovementSpeed\<close>, and the quotient
  \<open>deltaMs / rayMovementSpeed\<close> is an infinity or NaN for a period of zero and NaN for a NaN
  period. So the period and the current radius of a ray are JavaScript numbers; the bounds
  of a ray, which ray generation computes from the canvas size, stay reals.
  \<open>Math.random\<close> is the sequence of values it will return, with a count of the calls made.
\<close>

record Radius =
  inner :: real
  min_r :: real
  max_r :: real
  current :: jsnum
  inc :: bool

record Ray =
  radians :: real
  width :: real
  radius :: Radius

record IrisIndicator =
  engine :: WebGLEngine
  autoRayAdjustmentFactor :: real
  nRays :: real
  autoAdjustRays :: bool
  segmentAdjustmentAnimationStepDuration :: real
  msPerRotation :: real
  rayMovementSpeed :: jsnum
  segmentCounts :: "real list"
  segmentRatiosTarget :: "real list"
  segmentRatiosCurrent :: "real list"
  segmentColors :: "real Vec4 list"
  fpsLimitEnabled :: bool
  fpsLimit :: real
  frameTimings :: "real list"
  timestamp :: real
  previousTimestamp :: "real option"
  resizeOnNextDraw :: bool
  rays :: "Ray list"
  Math_random :: "nat \<Rightarrow> real"
  random_calls :: nat

subsection \<open>Segments\<close>

text \<open>The indicator's \<open>setSegments\<close>: one segment per count, handed to the engine.\<close>

definition iris_setSegments :: "IrisIndicator \<Rightarrow> js_error + IrisIndicator" where
  "iris_setSegments s =
     (let segs = map (\<lambda>i. \<lparr>color = segmentColors s ! i,
                             ratio = Fin (segmentRatiosCurrent s ! i)\<rparr>)
                     [0..<length (segmentCounts s)]
      in case setSegments segs (engine s) of
           Inl err \<Rightarrow> Inl err
         | Inr e \<Rightarrow> Inr (s\<lparr>engine := e\<rparr>))"

definition setSegmentCounts :: "real list \<Rightarrow> IrisIndicator \<Rightarrow> js_error + IrisIndicator" where
  "setSegmentCounts counts s =
     (let n = length (segmentCounts s);
          stored = map (\<lambda>i. counts ! i) [0..<n];
          sum = foldl (+) 0 stored
      in iris_setSegments
           (s\<lparr>segmentCounts := stored,
              segmentRatiosTarget :=
                (if sum = 0 then [0, 0, 0, 0] else map (\<lambda>c. c / sum) stored)\<rparr>))"

definition setSegmentAdjustmentStepDuration :: "real \<Rightarrow> IrisIndicator \<Rightarrow> IrisIndicator" where
  "setSegmentAdjustmentStepDuration duration s =
     s\<lparr>segmentAdjustmentAnimationStepDuration := duration\<rparr>"

text \<open>
  The body of the segment loop of \<open>drawFrame\<close> for index \<open>i\<close>; the state is the current
  ratios and \<open>hasRatioChanged\<close>. The snap threshold \<open>10e-4\<close> is ten times \<open>10\<^sup>-\<^sup>4\<close>.
\<close>

definition ease_segment :: "real \<Rightarrow> real list \<Rightarrow> nat \<Rightarrow> real list \<times> bool \<Rightarrow> real list \<times> bool" where
  "ease_segment step target i st =
     (let cur = fst st ! i; tar = target ! i
      in if cur = tar then st
         else
           let direction = (if cur > tar then - 1 else 1);
               difference = \<bar>tar - cur\<bar>
           in if difference < 10 / 10 ^ 4 then ((fst st)[i := tar], True)
              else ((fst st)[i := cur + direction * step * difference], True))"

definition ease_segments :: "real \<Rightarrow> real list \<Rightarrow> real list \<Rightarrow> real list \<times> bool" where
  "ease_segments step cur target =
     fold (ease_segment step target) [0..<MAX_SUPPORTED_SEGMENTS] (cur, False)"

subsection \<open>Rays\<close>

definition setRayCount :: "real \<Rightarrow> IrisIndicator \<Rightarrow> IrisIndicator" where
  "setRayCount count s = s\<lparr>autoAdjustRays := False, nRays := count\<rparr>"

definition setRayMovementSpeed :: "jsnum \<Rightarrow> IrisIndicator \<Rightarrow> IrisIndicator" where
  "setRayMovementSpeed seconds s = s\<lparr>rayMovementSpeed := js_mul seconds (Fin 1000)\<rparr>"

text \<open>\<open>Math.round\<close> rounds half up.\<close>

definition calculateOptimalRayCount :: "IrisIndicator \<Rightarrow> real" where
  "calculateOptimalRayCount s =
     (let (cWidth, cHeight) = textureSize (engine s);
          smallestEdge = real_of_int (min cWidth cHeight);
          wantedRayCount = real_of_int \<lfloor>smallestEdge / autoRayAdjustmentFactor s + 1 / 2\<rfloor>
      in max wantedRayCount 16)"

text \<open>
  One iteration of the loop of \<open>generateRays\<close>: four calls of \<open>Math.random\<close>, in the order
  minimum radius, maximum radius, start radius, direction.
\<close>

definition generate_ray :: "real \<Rightarrow> real \<Rightarrow> nat \<Rightarrow> IrisIndicator \<Rightarrow> IrisIndicator" where
  "generate_ray canvasRadius widthInRadians i s =
     (let outerRadius = 1 * canvasRadius;
          innerRadius = (3 / 10) * canvasRadius;
          minVaryRadius = (6 / 10) * canvasRadius;
          pos = real i / nRays s;
          centerInRad = pos * 2 * pi;
          RADIUS_VARIATION = 1 / 10;
          k = random_calls s;
          rMin = minVaryRadius + Math_random s k * RADIUS_VARIATION * canvasRadius;
          rMax = outerRadius - Math_random s (k + 1) * RADIUS_VARIATION * canvasRadius;
          startRadius = minVaryRadius + (rMax - rMin) * Math_random s (k + 2)
      in s\<lparr>rays := rays s @
              [\<lparr>radians = centerInRad, width = widthInRadians,
                radius = \<lparr>inner = innerRadius, min_r = rMin, max_r = rMax,
                          current = Fin startRadius,
                          inc = (Math_random s (k + 3) > 1 / 2)\<rparr>\<rparr>],
           random_calls := k + 4\<rparr>)"

text \<open>
  \<open>generateRays\<close> empties the array and runs the loop for \<open>i = 0, 1, ...\<close> while \<open>i < nRays\<close>,
  that is for the indices below the ceiling of \<open>nRays\<close>.
\<close>

definition generateRays :: "IrisIndicator \<Rightarrow> IrisIndicator" where
  "generateRays s =
     (let (cWidth, cHeight) = textureSize (engine s);
          canvasDiameter = real_of_int (min cWidth cHeight);
          canvasRadius = canvasDiameter / 2;
          overlapFactor = 3;
          widthInRadians = ((2 * pi) / (nRays s * 3)) * overlapFactor
      in fold (generate_ray canvasRadius widthInRadians) [0..<nat \<lceil>nRays s\<rceil>] (s\<lparr>rays := []\<rparr>))"

definition enableAutomaticRayAdjustment :: "IrisIndicator \<Rightarrow> IrisIndicator" where
  "enableAutomaticRayAdjustment s =
     (let s1 = s\<lparr>autoAdjustRays := True\<rparr>;
          s2 = s1\<lparr>nRays := calculateOptimalRayCount s1\<rparr>
      in generateRays s2)"

definition iris_onResize :: "IrisIndicator \<Rightarrow> IrisIndicator" where
  "iris_onResize s = s\<lparr>resizeOnNextDraw := True\<rparr>"

text \<open>The indicator's effect setters hand their argument to the engine.\<close>

definition iris_setMSAAEnabled :: "bool \<Rightarrow> IrisIndicator \<Rightarrow> IrisIndicator" where
  "iris_setMSAAEnabled enabled s = s\<lparr>engine := setMSAAEnabled enabled (engine s)\<rparr>"

definition iris_setTextureSizeModifier :: "real \<Rightarrow> IrisIndicator \<Rightarrow> IrisIndicator" where
  "iris_setTextureSizeModifier modifier s =
     iris_onResize (s\<lparr>engine := setTextureSizeModifier modifier (engine s)\<rparr>)"

definition doResizeCalculation :: "IrisIndicator \<Rightarrow> IrisIndicator" where
  "doResizeCalculation s =
     (let s1 = s\<lparr>resizeOnNextDraw := False\<rparr>;
          s2 = s1\<lparr>engine := onResize (engine s1)\<rparr>;
          s3 = (if autoAdjustRays s2 then s2\<lparr>nRays := calculateOptimalRayCount s2\<rparr> else s2)
      in generateRays s3)"

text \<open>
  The body of the ray loop of \<open>drawFrame\<close>: one step of \<open>(max - min) * speed\<close> outwards or
  inwards, clamped at the bounds, where the direction is set.
\<close>

definition move_ray :: "jsnum \<Rightarrow> Ray \<Rightarrow> Ray" where
  "move_ray speed ray =
     (let increment = js_mul (Fin (max_r (radius ray) - min_r (radius ray))) speed;
          moved = (if inc (radius ray) then js_add (current (radius ray)) increment
                   else js_sub (current (radius ray)) increment)
      in if js_le moved (Fin (min_r (radius ray)))
         then ray\<lparr>radius := (radius ray)\<lparr>current := Fin (min_r (radius ray)), inc := True\<rparr>\<rparr>
         else if js_ge moved (Fin (max_r (radius ray)))
         then ray\<lparr>radius := (radius ray)\<lparr>current := Fin (max_r (radius ray)), inc := False\<rparr>\<rparr>
         else ray\<lparr>radius := (radius ray)\<lparr>current := moved, inc := inc (radius ray)\<rparr>\<rparr>)"

text \<open>The ray loop of \<open>drawFrame\<close>, with \<open>speed = deltaMs / this.rayMovementSpeed\<close>.\<close>

definition move_rays :: "real \<Rightarrow> IrisIndicator \<Rightarrow> IrisIndicator" where
  "move_rays deltaMs s =
     (let speed = js_div (Fin deltaMs) (rayMovementSpeed s)
      in s\<lparr>rays := map (move_ray speed) (rays s)\<rparr>)"

subsection \<open>The frame loop\<close>

text \<open>
  \<open>drawFrame\<close> in three parts. First the segment part: the step, the easing loop, and the
  upload of the segments when a ratio changed.
\<close>

definition ease_frame :: "real \<Rightarrow> IrisIndicator \<Rightarrow> js_error + IrisIndicator" where
  "ease_frame deltaMs s =
     (let step = deltaMs / segmentAdjustmentAnimationStepDuration s;
          (ratios, hasRatioChanged) =
             ease_segments step (segmentRatiosCurrent s) (segmentRatiosTarget s);
          s' = s\<lparr>segmentRatiosCurrent := ratios\<rparr>
      in if hasRatioChanged then iris_setSegments s' else Inr s')"

text \<open>
  Last the vertex data of the rays, the rotation and translation matrix, and the engine's
  \<open>draw\<close>.
\<close>

definition render_frame :: "real \<Rightarrow> IrisIndicator \<Rightarrow> IrisIndicator" where
  "render_frame now s =
     (let data = concat (map (\<lambda>r. coordsForRay (radians r) (width r)
                                      (inner (radius r)) (current (radius r))) (rays s));
          componentsPerTri = 3;
          nComponents = componentsPerTri * length (rays s);
          rot = js_rem now (msPerRotation s) / msPerRotation s;
          moveByRadians = - rot * (2 * pi);
          (cWidth, cHeight) = textureSize (engine s);
          originX = real_of_int cWidth / 2;
          originY = real_of_int cHeight / 2;
          mat = mat3mul (translationMatrix originX originY) (rotationMatrix moveByRadians)
      in s\<lparr>engine := draw data nComponents mat (engine s)\<rparr>)"

text \<open>
  \<open>drawFrame\<close>, with the value of \<open>Date.now()\<close> as an argument: the elapsed time, the pending
  resize, then the segment part, the ray movement (\<open>move_rays\<close>) and the rendering.
\<close>

definition drawFrame :: "real \<Rightarrow> IrisIndicator \<Rightarrow> js_error + IrisIndicator" where
  "drawFrame now s0 =
     (let deltaMs = now - timestamp s0;
          s1 = s0\<lparr>timestamp := now\<rparr>;
          s2 = (if resizeOnNextDraw s1 then doResizeCalculation s1 else s1)
      in case ease_frame deltaMs s2 of
           Inl err \<Rightarrow> Inl err
         | Inr s4 \<Rightarrow> Inr (render_frame now (move_rays deltaMs s4)))"

text \<open>\<open>while (frameTimings.length > 120) frameTimings.shift()\<close>.\<close>

function trim_timings :: "real list \<Rightarrow> real list" where
  "trim_timings timings = (if length timings > 120 then trim_timings (tl timings) else timings)"
  by pat_completeness auto
termination
  by (relation "measure length") auto

declare trim_timings.simps [simp del]

definition push_timing :: "real \<Rightarrow> real list \<Rightarrow> real list" where
  "push_timing sample timings = trim_timings (timings @ [sample])"

text \<open>
  \<open>loop\<close>, with the frame's timestamp and the value \<open>Date.now()\<close> has when \<open>drawFrame\<close> runs.
  A frame that comes too early under the FPS limit is skipped: the state is unchanged and
  only the next frame is requested.
\<close>

definition loop :: "real \<Rightarrow> real \<Rightarrow> IrisIndicator \<Rightarrow> js_error + IrisIndicator" where
  "loop ts now s =
     (let deltaTime = (case previousTimestamp s of None \<Rightarrow> 0 | Some p \<Rightarrow> ts - p)
      in if fpsLimitEnabled s \<and> deltaTime > 0 \<and> deltaTime < fpsLimit s then Inr s
         else drawFrame now
                (s\<lparr>previousTimestamp := Some ts,
                   frameTimings :=
                     push_timing (if deltaTime > 0 then 1000 / deltaTime else 0) (frameTimings s)\<rparr>))"

definition getCurrentFps :: "IrisIndicator \<Rightarrow> real" where
  "getCurrentFps s =
     (if length (frameTimings s) > 0
      then foldl (+) 0 (frameTimings s) / real (length (frameTimings s))
      else 0)"

definition setFpsLimit :: "real \<Rightarrow> IrisIndicator \<Rightarrow> IrisIndicator" where
  "setFpsLimit limit s = s\<lparr>fpsLimit := real_of_int \<lfloor>1000 / limit\<rfloor>\<rparr>"

text \<open>
  The constructor: the engine for a canvas of the given client size, the defaults, the
  first set of rays and the first upload of the segments.
\<close>

definition new_IrisIndicator ::
    "real \<Rightarrow> real \<Rightarrow> real \<Rightarrow> (nat \<Rightarrow> real) \<Rightarrow> real \<Rightarrow> js_error + IrisIndicator" where
  "new_IrisIndicator w h devicePixelRatio rnd now =
     (let red = (1, 3 / 10, 3 / 10, 1); green = (3 / 10, 1, 3 / 10, 1);
          blue = (2 / 10, 5 / 10, 1, 1); purple = (1, 3 / 10, 1, 1);
          s0 = \<lparr>engine = new_WebGLEngine w h devicePixelRatio,
                autoRayAdjustmentFactor = 5, nRays = 0, autoAdjustRays = True,
                segmentAdjustmentAnimationStepDuration = 100,
                msPerRotation = 240000, rayMovementSpeed = Fin 5000,
                segmentCounts = [0, 0, 0, 0], segmentRatiosTarget = [0, 0, 0, 0],
                segmentRatiosCurrent = [0, 0, 0, 0],
                segmentColors = [red, green, blue, purple],
                fpsLimitEnabled = True, fpsLimit = real_of_int \<lfloor>(1000::real) / 30\<rfloor>,
                frameTimings = [], timestamp = now, previousTimestamp = None,
                resizeOnNextDraw = False, rays = [],
                Math_random = rnd, random_calls = 0\<rparr>;
          s1 = s0\<lparr>nRays := calculateOptimalRayCount s0\<rparr>
      in iris_setSegments (generateRays s1))"

section \<open>Notions used to state the properties\<close>

text \<open>
  What one pass of the segment loop does to one ratio: the three branches of the loop body
  (nothing to do, snap, ease), as a function of the step, the current and the target ratio.
\<close>

definition eased :: "real \<Rightarrow> real \<Rightarrow> real \<Rightarrow> real" where
  "eased step cur tar =
     (if cur = tar then cur
      else if \<bar>tar - cur\<bar> < 1 / 1000 then tar
      else cur + (if cur > tar then - 1 else 1) * step * \<bar>tar - cur\<bar>)"

text \<open>
  The current ratios after \<open>n\<close> frames that each took \<open>deltaMs\<close> milliseconds, for a step
  duration \<open>duration\<close>: \<open>n\<close> runs of the segment loop with \<open>step = deltaMs / duration\<close>.
\<close>

fun ease_ticks :: "nat \<Rightarrow> real \<Rightarrow> real \<Rightarrow> real list \<Rightarrow> real list \<Rightarrow> real list" where
  "ease_ticks 0 deltaMs duration cur target = cur"
| "ease_ticks (Suc n) deltaMs duration cur target =
     ease_ticks n deltaMs duration (fst (ease_segments (deltaMs / duration) cur target)) target"

text \<open>
  \<open>n\<close> frames in a row, each \<open>deltaMs\<close> milliseconds after the one before: \<open>drawFrame\<close> is
  called with the time of the last frame plus \<open>deltaMs\<close>.
\<close>

fun draw_frames :: "nat \<Rightarrow> real \<Rightarrow> IrisIndicator \<Rightarrow> js_error + IrisIndicator" where
  "draw_frames 0 deltaMs s = Inr s"
| "draw_frames (Suc n) deltaMs s =
     (case drawFrame (timestamp s + deltaMs) s of
        Inl err \<Rightarrow> Inl err
      | Inr s' \<Rightarrow> draw_frames n deltaMs s')"

text \<open>
  One ray over a run of frames with the given values of \<open>deltaMs\<close>, for a movement period
  \<open>period\<close> (the field \<open>rayMovementSpeed\<close>): in every frame the speed is the JavaScript
  quotient of the frame's \<open>deltaMs\<close> and the period.
\<close>

definition move_ray_frames :: "jsnum \<Rightarrow> real list \<Rightarrow> Ray \<Rightarrow> Ray" where
  "move_ray_frames period deltas ray =
     fold (\<lambda>deltaMs. move_ray (js_div (Fin deltaMs) period)) deltas ray"


text \<open>The number of draw calls of a log that ran the blur pass of the fragment shader.\<close>

definition blur_draws :: "draw_call list \<Rightarrow> nat" where
  "blur_draws calls = length (filter (\<lambda>c. dc_pass c = FRAGMENT_PASS_BLUR) calls)"

text \<open>The framebuffer the last blur draw of a log wrote to, if the log has a blur draw.\<close>

definition last_blur_target :: "draw_call list \<Rightarrow> framebuffer option" where
  "last_blur_target calls =
     (let blurs = filter (\<lambda>c. dc_pass c = FRAGMENT_PASS_BLUR) calls
      in if blurs = [] then None else dc_framebuffer (last blurs))"

text \<open>The page's layout gives the canvas a new client size; the engine is not told.\<close>

definition canvas_resized :: "real \<Rightarrow> real \<Rightarrow> WebGLEngine \<Rightarrow> WebGLEngine" where
  "canvas_resized w h e = e\<lparr>gl := (gl e)\<lparr>clientWidth := w, clientHeight := h\<rparr>\<rparr>"

text \<open>
  The blend width in the words of the specification: half of the smallest nonzero ratio,
  clamped into the interval from 0.01 to 0.1.
\<close>

definition spec_blend_width :: "real list \<Rightarrow> real" where
  "spec_blend_width ratios =
     max (1 / 100) (min (1 / 10) (Min (set (filter (\<lambda>r. r \<noteq> 0) ratios)) / 2))"

text \<open>The log entry of blur iteration \<open>p\<close> started in the WebGL state \<open>g\<close>.\<close>

definition blur_call :: "gl_context \<Rightarrow> nat \<Rightarrow> draw_call" where
  "blur_call g p = \<lparr>dc_framebuffer = Some (Pingpong_fb (p mod 2)), dc_pass = u_pass g,
      dc_texture0 = bound_texture g 0, dc_texture1 = bound_texture g 1,
      dc_blur_horizontal = p mod 2, dc_count = 6\<rparr>"

text \<open>The blend ratio an upload left in the uniform, if the upload did not fail.\<close>

definition uploaded_blendRatio :: "js_error + WebGLEngine \<Rightarrow> jsnum option" where
  "uploaded_blendRatio r = (case r of Inl err \<Rightarrow> None | Inr e \<Rightarrow> Some (u_blendRatio (gl e)))"

text \<open>Segments of one colour with the given finite ratios.\<close>

definition red_segments :: "real list \<Rightarrow> Segment list" where
  "red_segments ratios = map (\<lambda>r. \<lparr>color = (1, 3 / 10, 3 / 10, 1), ratio = Fin r\<rparr>) ratios"


text \<open>
  A ray as \<open>generateRays\<close> makes it for a texture of 200 by 200 pixels and 40 rays when
  \<open>Math.random\<close> returns 0.9, 0.9, 0.1 and 0.9: the start radius 62.2 is below the minimum
  69, and the ray is moving outwards.
\<close>

definition low_ray :: Ray where
  "low_ray =
     \<lparr>radians = 0, width = pi / 20,
      radius = \<lparr>inner = 30, min_r = 69, max_r = 91, current = Fin (622 / 10), inc = True\<rparr>\<rparr>"

section \<open>Easing of the segment ratios\<close>

lemma ease_segment_fst:
  "fst (ease_segment step target i st) = (fst st)[i := eased step (fst st ! i) (target ! i)]"
proof (cases "fst st ! i = target ! i")
  case True
  then have "(fst st)[i := target ! i] = fst st" by (metis list_update_id)
  with True show ?thesis by (simp add: ease_segment_def eased_def Let_def)
next
  case False
  then show ?thesis by (simp add: ease_segment_def eased_def Let_def)
qed

lemma ease_fold_length:
  "length (fst (fold (ease_segment step target) js st)) = length (fst st)"
  by (induction js arbitrary: st) (simp_all add: ease_segment_fst)

lemma ease_fold_nth:
  "distinct js \<Longrightarrow> i < length (fst st) \<Longrightarrow>
   fst (fold (ease_segment step target) js st) ! i =
     (if i \<in> set js then eased step (fst st ! i) (target ! i) else fst st ! i)"
proof (induction js arbitrary: st)
  case Nil
  then show ?case by simp
next
  case (Cons j js)
  let ?st = "ease_segment step target j st"
  have len: "i < length (fst ?st)" using Cons.prems by (simp add: ease_segment_fst)
  have d: "distinct js" and nj: "j \<notin> set js" using Cons.prems by simp_all
  have "fst (fold (ease_segment step target) (j # js) st) ! i =
        (if i \<in> set js then eased step (fst ?st ! i) (target ! i) else fst ?st ! i)"
    using Cons.IH[OF d len] by simp
  also have "\<dots> = (if i \<in> set (j # js) then eased step (fst st ! i) (target ! i) else fst st ! i)"
  proof (cases "i = j")
    case True
    then show ?thesis using nj Cons.prems(2) by (simp add: ease_segment_fst)
  next
    case False
    then show ?thesis by (simp add: ease_segment_fst)
  qed
  finally show ?case .
qed

text \<open>Every pass of the loop treats each of the four ratios on its own.\<close>

lemma ease_segments_nth:
  "i < MAX_SUPPORTED_SEGMENTS \<Longrightarrow> length cur = MAX_SUPPORTED_SEGMENTS \<Longrightarrow>
   fst (ease_segments step cur target) ! i = eased step (cur ! i) (target ! i)"
  unfolding ease_segments_def by (subst ease_fold_nth) simp_all

lemma ease_segments_length:
  "length (fst (ease_segments step cur target)) = length cur"
  unfolding ease_segments_def by (simp add: ease_fold_length)

text \<open>
  C5. Once the gap between a segment's current ratio and its target is below \<open>10\<^sup>-\<^sup>3\<close> (and
  not zero), the next pass of the easing loop sets the current ratio to the target itself,
  whatever the step is.
\<close>

theorem ratio_snap:
  assumes "length cur = MAX_SUPPORTED_SEGMENTS" and "i < MAX_SUPPORTED_SEGMENTS"
    and "cur ! i \<noteq> target ! i" and "\<bar>target ! i - cur ! i\<bar> < 1 / 1000"
  shows "fst (ease_segments step cur target) ! i = target ! i"
  using assms by (simp add: ease_segments_nth eased_def)

theorem ratio_snap_witness:
  "length [2499 / 10000, 1 / 4, 1 / 4, 1 / 4 :: real] = MAX_SUPPORTED_SEGMENTS
   \<and> (0::nat) < MAX_SUPPORTED_SEGMENTS
   \<and> [2499 / 10000, 1 / 4, 1 / 4, 1 / 4 :: real] ! 0 \<noteq> [1 / 4, 1 / 4, 1 / 4, 1 / 4] ! 0
   \<and> \<bar>[1 / 4, 1 / 4, 1 / 4, 1 / 4] ! 0 - [2499 / 10000, 1 / 4, 1 / 4, 1 / 4 :: real] ! 0\<bar> < 1 / 1000
   \<and> fst (ease_segments (1 / 3) [2499 / 10000, 1 / 4, 1 / 4, 1 / 4] [1 / 4, 1 / 4, 1 / 4, 1 / 4]) ! 0
       = 1 / 4"
  using ratio_snap [of "[2499 / 10000, 1 / 4, 1 / 4, 1 / 4]" 0 "[1 / 4, 1 / 4, 1 / 4, 1 / 4]" "1 / 3"]
  by (simp add: MAX_SUPPORTED_SEGMENTS_def)

lemma ease_segments_step_2_up:
  "fst (ease_segments 2 [0, 0, 0, 0] [1, 0, 0, 0]) = [2, 0, 0, 0]"
  by (simp add: ease_segments_def MAX_SUPPORTED_SEGMENTS_def ease_segment_def Let_def upt_rec)

lemma ease_segments_step_2_down:
  "fst (ease_segments 2 [2, 0, 0, 0] [1, 0, 0, 0]) = [0, 0, 0, 0]"
  by (simp add: ease_segments_def MAX_SUPPORTED_SEGMENTS_def ease_segment_def Let_def upt_rec)

lemma ease_ticks_step_2:
  "ease_ticks n 200 100 [0, 0, 0, 0] [1, 0, 0, 0] = (if even n then [0, 0, 0, 0] else [2, 0, 0, 0])
   \<and> ease_ticks n 200 100 [2, 0, 0, 0] [1, 0, 0, 0] = (if even n then [2, 0, 0, 0] else [0, 0, 0, 0])"
  by (induction n) (simp_all add: ease_segments_step_2_up ease_segments_step_2_down)

text \<open>
  C1. The claim is that for every fixed positive \<open>deltaMs\<close> the current ratios reach the
  targets within a bounded number of frames and never pass them. With a frame time above the
  step duration the loop moves a ratio by more than the remaining gap: at 150 ms against a
  step duration of 100 ms the first frame takes the ratio from 0 past its target 1 to 3/2,
  and at 200 ms the ratio alternates between 0 and 2 for ever and never equals 1.
\<close>

theorem easing_overshoots_long_frames:
  "ease_ticks 1 150 100 [0, 0, 0, 0] [1, 0, 0, 0] = [3 / 2, 0, 0, 0]
   \<and> ease_ticks n 200 100 [0, 0, 0, 0] [1, 0, 0, 0] ! 0 = (if even n then 0 else 2)
   \<and> ease_ticks n 200 100 [0, 0, 0, 0] [1, 0, 0, 0] \<noteq> [1, 0, 0, 0]"
proof -
  have "ease_ticks 1 150 100 [0, 0, 0, 0] [1, 0, 0, 0] = [3 / 2, 0, 0, 0]"
    by (simp add: ease_segments_def MAX_SUPPORTED_SEGMENTS_def ease_segment_def Let_def upt_rec)
  then show ?thesis by (simp add: ease_ticks_step_2)
qed

text \<open>
  What does hold: when a frame takes no longer than the step duration, the step is at most
  1, a pass moves a ratio towards its target and not beyond it, the gap shrinks by the
  factor \<open>1 - step\<close>, and after finitely many frames every ratio is its target and stays
  there.
\<close>

lemma eased_between_up:
  assumes "0 \<le> step" "step \<le> 1" "cur \<le> tar"
  shows "cur \<le> eased step cur tar \<and> eased step cur tar \<le> tar"
proof -
  have "step * (tar - cur) \<le> 1 * (tar - cur)"
    using assms by (intro mult_right_mono) simp_all
  moreover have "0 \<le> step * (tar - cur)" using assms by simp
  ultimately show ?thesis using assms(3) by (simp add: eased_def)
qed

lemma eased_between_down:
  assumes "0 \<le> step" "step \<le> 1" "tar \<le> cur"
  shows "tar \<le> eased step cur tar \<and> eased step cur tar \<le> cur"
proof -
  have "step * (cur - tar) \<le> 1 * (cur - tar)"
    using assms by (intro mult_right_mono) simp_all
  moreover have "0 \<le> step * (cur - tar)" using assms by simp
  ultimately show ?thesis using assms(3) by (simp add: eased_def)
qed

lemma eased_gap:
  assumes "0 \<le> step" "step \<le> 1"
  shows "\<bar>tar - eased step cur tar\<bar> \<le> (1 - step) * \<bar>tar - cur\<bar>"
proof -
  have nn: "0 \<le> (1 - step) * \<bar>tar - cur\<bar>" using assms by simp
  show ?thesis
  proof (cases "cur = tar \<or> \<bar>tar - cur\<bar> < 1 / 1000")
    case True
    then have "eased step cur tar = tar" by (auto simp: eased_def)
    then show ?thesis using nn by simp
  next
    case False
    show ?thesis
    proof (cases "cur > tar")
      case True
      then have e: "eased step cur tar = cur - step * (cur - tar)" using False by (simp add: eased_def)
      have "tar - (cur - step * (cur - tar)) = - ((1 - step) * (cur - tar))" by (simp add: algebra_simps)
      moreover have "0 \<le> (1 - step) * (cur - tar)" using assms True by simp
      ultimately show ?thesis using True unfolding e by simp
    next
      case F2: False
      then have e: "eased step cur tar = cur + step * (tar - cur)" using False by (simp add: eased_def)
      have "tar - (cur + step * (tar - cur)) = (1 - step) * (tar - cur)" by (simp add: algebra_simps)
      moreover have "0 \<le> (1 - step) * (tar - cur)" using assms F2 by simp
      ultimately show ?thesis using F2 unfolding e by simp
    qed
  qed
qed

lemma eased_fixed: "eased step tar tar = tar"
  by (simp add: eased_def)

lemma eased_snap: "\<bar>tar - cur\<bar> < 1 / 1000 \<Longrightarrow> eased step cur tar = tar"
  by (auto simp: eased_def)

lemma eased_iter_gap:
  assumes "0 \<le> step" "step \<le> 1"
  shows "\<bar>tar - ((\<lambda>c. eased step c tar) ^^ n) cur\<bar> \<le> (1 - step) ^ n * \<bar>tar - cur\<bar>"
proof (induction n)
  case 0
  then show ?case by simp
next
  case (Suc n)
  let ?c = "((\<lambda>c. eased step c tar) ^^ n) cur"
  have "\<bar>tar - eased step ?c tar\<bar> \<le> (1 - step) * \<bar>tar - ?c\<bar>" by (rule eased_gap[OF assms])
  also have "\<dots> \<le> (1 - step) * ((1 - step) ^ n * \<bar>tar - cur\<bar>)"
    using Suc assms by (intro mult_left_mono) simp_all
  finally show ?case by (simp add: mult.assoc)
qed

lemma eased_iter_stays:
  "((\<lambda>c. eased step c tar) ^^ n) tar = tar"
  by (induction n) (simp_all add: eased_fixed)

lemma eased_converges:
  assumes "0 < step" "step \<le> 1"
  shows "\<exists>N. \<forall>n\<ge>N. ((\<lambda>c. eased step c tar) ^^ n) cur = tar"
proof -
  have q: "0 \<le> 1 - step" "1 - step < 1" using assms by simp_all
  have "\<exists>N. (1 - step) ^ N * \<bar>tar - cur\<bar> < 1 / 1000"
  proof (cases "tar = cur")
    case True
    then show ?thesis by simp
  next
    case False
    then have pos: "0 < 1 / 1000 / \<bar>tar - cur\<bar>" by simp
    obtain N where "(1 - step) ^ N < 1 / 1000 / \<bar>tar - cur\<bar>"
      using real_arch_pow_inv[OF pos q(2)] by blast
    then have "(1 - step) ^ N * \<bar>tar - cur\<bar> < 1 / 1000"
      using False by (simp add: pos_less_divide_eq)
    then show ?thesis by blast
  qed
  then obtain N where N: "(1 - step) ^ N * \<bar>tar - cur\<bar> < 1 / 1000" by blast
  let ?f = "\<lambda>c. eased step c tar"
  have "\<bar>tar - (?f ^^ N) cur\<bar> < 1 / 1000"
    using eased_iter_gap[of step tar N cur] assms N by simp
  then have S: "(?f ^^ Suc N) cur = tar" by (simp add: eased_snap)
  have "\<forall>n\<ge>Suc N. (?f ^^ n) cur = tar"
  proof (intro allI impI)
    fix n assume "Suc N \<le> n"
    then obtain k where n: "n = k + Suc N" by (metis le_add_diff_inverse2)
    have "(?f ^^ n) cur = (?f ^^ k) ((?f ^^ Suc N) cur)"
      unfolding n by (simp only: funpow_add o_apply)
    then show "(?f ^^ n) cur = tar" using S by (simp add: eased_iter_stays)
  qed
  then show ?thesis by blast
qed

lemma ease_ticks_nth:
  "i < MAX_SUPPORTED_SEGMENTS \<Longrightarrow> length cur = MAX_SUPPORTED_SEGMENTS \<Longrightarrow>
   ease_ticks n deltaMs duration cur target ! i
     = ((\<lambda>c. eased (deltaMs / duration) c (target ! i)) ^^ n) (cur ! i)
   \<and> length (ease_ticks n deltaMs duration cur target) = MAX_SUPPORTED_SEGMENTS"
proof (induction n arbitrary: cur)
  case 0
  then show ?case by simp
next
  case (Suc n)
  let ?c = "fst (ease_segments (deltaMs / duration) cur target)"
  have len: "length ?c = MAX_SUPPORTED_SEGMENTS" using Suc.prems by (simp add: ease_segments_length)
  have "ease_ticks (Suc n) deltaMs duration cur target ! i
        = ((\<lambda>c. eased (deltaMs / duration) c (target ! i)) ^^ n) (?c ! i)"
    using Suc.IH[OF Suc.prems(1) len] by simp
  also have "?c ! i = eased (deltaMs / duration) (cur ! i) (target ! i)"
    using Suc.prems by (simp add: ease_segments_nth)
  also have "((\<lambda>c. eased (deltaMs / duration) c (target ! i)) ^^ n)
               (eased (deltaMs / duration) (cur ! i) (target ! i))
             = ((\<lambda>c. eased (deltaMs / duration) c (target ! i)) ^^ Suc n) (cur ! i)"
    using funpow_swap1[of "\<lambda>c. eased (deltaMs / duration) c (target ! i)" n "cur ! i"] by simp
  finally have "ease_ticks (Suc n) deltaMs duration cur target ! i
        = ((\<lambda>c. eased (deltaMs / duration) c (target ! i)) ^^ Suc n) (cur ! i)" .
  moreover have "length (ease_ticks (Suc n) deltaMs duration cur target) = MAX_SUPPORTED_SEGMENTS"
    using Suc.IH[OF Suc.prems(1) len] by simp
  ultimately show ?case by blast
qed

lemma easing_converges_short_frames:
  assumes "0 < deltaMs" "deltaMs \<le> duration"
    and "length cur = MAX_SUPPORTED_SEGMENTS" "length target = MAX_SUPPORTED_SEGMENTS"
  shows "\<exists>N. \<forall>n\<ge>N. ease_ticks n deltaMs duration cur target = target"
proof -
  have st: "0 < deltaMs / duration" "deltaMs / duration \<le> 1" using assms(1,2) by simp_all
  have "\<forall>i. \<exists>N. \<forall>n\<ge>N. ((\<lambda>c. eased (deltaMs / duration) c (target ! i)) ^^ n) (cur ! i) = target ! i"
    using eased_converges[OF st] by blast
  then obtain M where M: "\<And>i n. M i \<le> n \<Longrightarrow>
      ((\<lambda>c. eased (deltaMs / duration) c (target ! i)) ^^ n) (cur ! i) = target ! i"
    by metis
  define N where "N = Max (M ` {..<MAX_SUPPORTED_SEGMENTS})"
  have "\<forall>n\<ge>N. ease_ticks n deltaMs duration cur target = target"
  proof (intro allI impI)
    fix n assume n: "N \<le> n"
    show "ease_ticks n deltaMs duration cur target = target"
    proof (rule nth_equalityI)
      show "length (ease_ticks n deltaMs duration cur target) = length target"
        using ease_ticks_nth[of 0 cur n deltaMs duration target] assms(3,4)
        by (simp add: MAX_SUPPORTED_SEGMENTS_def)
    next
      fix i assume "i < length (ease_ticks n deltaMs duration cur target)"
      then have i: "i < MAX_SUPPORTED_SEGMENTS"
        using ease_ticks_nth[of 0 cur n deltaMs duration target] assms(3)
        by (simp add: MAX_SUPPORTED_SEGMENTS_def)
      then have "M i \<le> N" unfolding N_def by (intro Max_ge) simp_all
      then have "M i \<le> n" using n by simp
      from M[OF this] show "ease_ticks n deltaMs duration cur target ! i = target ! i"
        using ease_ticks_nth[OF i assms(3), of n deltaMs duration target] by simp
    qed
  qed
  then show ?thesis by blast
qed

section \<open>Ray movement\<close>







text \<open>The ray loop of a frame moves every ray of the state by \<open>move_ray\<close>.\<close>

lemma move_rays_nth:
  "i < length (rays s) \<Longrightarrow>
   rays (move_rays deltaMs s) ! i = move_ray (js_div (Fin deltaMs) (rayMovementSpeed s)) (rays s ! i)"
  by (simp add: move_rays_def Let_def)

lemma fold_move_rays_nth:
  "i < length (rays s) \<Longrightarrow>
   rays (fold move_rays ds s) ! i = move_ray_frames (rayMovementSpeed s) ds (rays s ! i)
   \<and> length (rays (fold move_rays ds s)) = length (rays s)
   \<and> rayMovementSpeed (fold move_rays ds s) = rayMovementSpeed s"
proof (induction ds arbitrary: s)
  case Nil
  then show ?case by (simp add: move_ray_frames_def)
next
  case (Cons d ds)
  have i: "i < length (rays (move_rays d s))" using Cons.prems by (simp add: move_rays_def Let_def)
  have sp: "rayMovementSpeed (move_rays d s) = rayMovementSpeed s"
    by (simp add: move_rays_def Let_def)
  have len: "length (rays (move_rays d s)) = length (rays s)" by (simp add: move_rays_def Let_def)
  show ?case using Cons.IH[OF i] Cons.prems sp len
    by (simp add: move_rays_nth move_ray_frames_def)
qed

text \<open>
  The ray \<open>low_ray\<close> is the first ray the loop of \<open>generateRays\<close> makes for a canvas radius of
  100 and 40 rays when the four calls of \<open>Math.random\<close> return 0.9, 0.9, 0.1 and 0.9.
\<close>

lemma generate_ray_low_ray:
  assumes "Math_random s (random_calls s) = 9 / 10"
    and "Math_random s (random_calls s + 1) = 9 / 10"
    and "Math_random s (random_calls s + 2) = 1 / 10"
    and "Math_random s (random_calls s + 3) = 9 / 10"
  shows "rays (generate_ray 100 (((2 * pi) / (40 * 3)) * 3) 0 s) = rays s @ [low_ray]"
  unfolding generate_ray_def Let_def assms low_ray_def by simp




section \<open>The FPS window\<close>

lemma trim_timings_drop: "trim_timings xs = drop (length xs - 120) xs"
proof (induction xs rule: trim_timings.induct)
  case (1 timings)
  show ?case
  proof (cases "length timings > 120")
    case True
    then have ne: "timings \<noteq> []" by auto
    have "trim_timings timings = trim_timings (tl timings)"
      using True by (subst trim_timings.simps) simp
    also have "\<dots> = drop (length (tl timings) - 120) (tl timings)" using 1 True by simp
    also have "\<dots> = drop (Suc (length (tl timings) - 120)) timings"
      using ne by (cases timings) simp_all
    also have "Suc (length (tl timings) - 120) = length timings - 120"
      using True ne by (cases timings) simp_all
    finally show ?thesis .
  next
    case False
    then show ?thesis by (subst trim_timings.simps) simp
  qed
qed

lemma push_timing_drop: "push_timing x xs = drop (Suc (length xs) - 120) (xs @ [x])"
  by (simp add: push_timing_def trim_timings_drop)

lemma length_push_timing: "length (push_timing x xs) \<le> 120"
  by (simp add: push_timing_drop)

lemma fold_push_timing:
  "length xs \<le> 120 \<Longrightarrow>
   fold push_timing samples xs = drop (length (xs @ samples) - 120) (xs @ samples)"
proof (induction samples arbitrary: xs)
  case Nil
  then show ?case by simp
next
  case (Cons x samples)
  have "fold push_timing (x # samples) xs = fold push_timing samples (push_timing x xs)" by simp
  also have "\<dots> = drop (length (push_timing x xs @ samples) - 120) (push_timing x xs @ samples)"
    by (rule Cons.IH) (rule length_push_timing)
  also have "\<dots> = drop (length (xs @ x # samples) - 120) (xs @ x # samples)"
  proof (cases "length xs < 120")
    case True
    then have "push_timing x xs = xs @ [x]" by (simp add: push_timing_drop)
    then show ?thesis by simp
  next
    case False
    with Cons.prems have len: "length xs = 120" by simp
    then obtain a xs' where xs: "xs = a # xs'" by (cases xs) simp_all
    with len have len': "length xs' = 119" by simp
    have "push_timing x xs = xs' @ [x]" using len xs by (simp add: push_timing_drop)
    then show ?thesis using xs len' by simp
  qed
  finally show ?case .
qed

lemma foldl_plus_sum_list: "foldl (+) a xs = a + sum_list (xs :: real list)"
  by (induction xs arbitrary: a) simp_all

section \<open>What a frame changes\<close>

text \<open>
  Ray generation writes the rays and draws random numbers, the resize calculation also
  resets its flag, resizes the engine and may set the ray count, and the upload of the
  segments and the rendering only touch the engine. So a frame leaves the FPS window and the
  target ratios alone, and the current ratios after it are those of the easing loop.
\<close>

lemma fold_generate_ray_shape:
  "\<exists>rs k. fold (generate_ray c w) js s = s\<lparr>rays := rs, random_calls := k\<rparr>"
proof (induction js arbitrary: s)
  case Nil
  have "s = s\<lparr>rays := rays s, random_calls := random_calls s\<rparr>" by simp
  then show ?case by (metis fold_simps(1))
next
  case (Cons j js)
  obtain rs0 k0 where g: "generate_ray c w j s = s\<lparr>rays := rs0, random_calls := k0\<rparr>"
    by (simp add: generate_ray_def Let_def)
  obtain rs k where "fold (generate_ray c w) js (generate_ray c w j s) =
      (generate_ray c w j s)\<lparr>rays := rs, random_calls := k\<rparr>"
    using Cons.IH by blast
  then have "fold (generate_ray c w) (j # js) s = s\<lparr>rays := rs, random_calls := k\<rparr>"
    using g by simp
  then show ?case by blast
qed

lemma generateRays_shape:
  "\<exists>rs k. generateRays s = s\<lparr>rays := rs, random_calls := k\<rparr>"
proof -
  obtain cW cH where t: "textureSize (engine s) = (cW, cH)" by (cases "textureSize (engine s)")
  obtain rs k where
    "fold (generate_ray (real_of_int (min cW cH) / 2) (2 * pi / (nRays s * 3) * 3))
       [0..<nat \<lceil>nRays s\<rceil>] (s\<lparr>rays := []\<rparr>) = (s\<lparr>rays := []\<rparr>)\<lparr>rays := rs, random_calls := k\<rparr>"
    using fold_generate_ray_shape by blast
  then have "generateRays s = s\<lparr>rays := rs, random_calls := k\<rparr>"
    by (simp add: generateRays_def t Let_def)
  then show ?thesis by blast
qed

lemma doResizeCalculation_shape:
  "\<exists>n rs k. doResizeCalculation s =
     s\<lparr>resizeOnNextDraw := False, engine := onResize (engine s), nRays := n,
       rays := rs, random_calls := k\<rparr>"
proof -
  let ?s2 = "s\<lparr>resizeOnNextDraw := False, engine := onResize (engine s)\<rparr>"
  define n where "n = (if autoAdjustRays s then calculateOptimalRayCount ?s2 else nRays s)"
  have d: "doResizeCalculation s = generateRays (?s2\<lparr>nRays := n\<rparr>)"
    by (simp add: doResizeCalculation_def Let_def n_def)
  obtain rs k where "generateRays (?s2\<lparr>nRays := n\<rparr>) = ?s2\<lparr>nRays := n, rays := rs, random_calls := k\<rparr>"
    using generateRays_shape[of "?s2\<lparr>nRays := n\<rparr>"] by auto
  with d show ?thesis by auto
qed

lemma iris_setSegments_shape:
  "iris_setSegments s = Inr s' \<Longrightarrow> \<exists>e. s' = s\<lparr>engine := e\<rparr>"
  by (auto simp: iris_setSegments_def Let_def split: sum.splits)


lemma ease_frame_shape:
  assumes "ease_frame deltaMs s = Inr s'"
  shows "\<exists>e. s' = s\<lparr>segmentRatiosCurrent :=
                     fst (ease_segments (deltaMs / segmentAdjustmentAnimationStepDuration s)
                            (segmentRatiosCurrent s) (segmentRatiosTarget s)),
                   engine := e\<rparr>"
proof -
  let ?E = "ease_segments (deltaMs / segmentAdjustmentAnimationStepDuration s)
              (segmentRatiosCurrent s) (segmentRatiosTarget s)"
  let ?s = "s\<lparr>segmentRatiosCurrent := fst ?E\<rparr>"
  have r: "(if snd ?E then iris_setSegments ?s else Inr ?s) = Inr s'"
    using assms by (simp add: ease_frame_def Let_def split_def)
  show ?thesis
  proof (cases "snd ?E")
    case True
    then show ?thesis using r iris_setSegments_shape[of ?s s'] by auto
  next
    case False
    have "?s\<lparr>engine := engine s\<rparr> = ?s" by simp
    moreover have "s' = ?s" using False r by simp
    ultimately have "s' = ?s\<lparr>engine := engine s\<rparr>" by simp
    then show ?thesis by blast
  qed
qed

lemma render_frame_shape: "\<exists>e. render_frame now s = s\<lparr>engine := e\<rparr>"
  by (rule exI[of _ "engine (render_frame now s)"]) (simp add: render_frame_def Let_def split_def)

lemma drawFrame_fields:
  assumes "drawFrame now s = Inr s'"
  shows "frameTimings s' = frameTimings s"
    and "previousTimestamp s' = previousTimestamp s"
    and "segmentRatiosTarget s' = segmentRatiosTarget s"
    and "segmentRatiosCurrent s' =
           fst (ease_segments ((now - timestamp s) / segmentAdjustmentAnimationStepDuration s)
                  (segmentRatiosCurrent s) (segmentRatiosTarget s))"
    and "timestamp s' = now"
proof -
  define s2 where "s2 = (if resizeOnNextDraw s then doResizeCalculation (s\<lparr>timestamp := now\<rparr>)
                         else s\<lparr>timestamp := now\<rparr>)"
  obtain n rs k where r: "doResizeCalculation (s\<lparr>timestamp := now\<rparr>) =
     s\<lparr>timestamp := now, resizeOnNextDraw := False,
        engine := onResize (engine s), nRays := n, rays := rs, random_calls := k\<rparr>"
    using doResizeCalculation_shape[of "s\<lparr>timestamp := now\<rparr>"] by auto
  have f2: "frameTimings s2 = frameTimings s" "previousTimestamp s2 = previousTimestamp s"
    "segmentRatiosTarget s2 = segmentRatiosTarget s"
    "segmentRatiosCurrent s2 = segmentRatiosCurrent s" "timestamp s2 = now"
    "segmentAdjustmentAnimationStepDuration s2 = segmentAdjustmentAnimationStepDuration s"
    using r by (simp_all add: s2_def)
  obtain s4 where s4: "ease_frame (now - timestamp s) s2 = Inr s4"
    and s': "s' = render_frame now (move_rays (now - timestamp s) s4)"
    using assms unfolding drawFrame_def s2_def
    by (auto simp: Let_def split: sum.splits)
  obtain e4 where e4: "s4 = s2\<lparr>segmentRatiosCurrent :=
        fst (ease_segments ((now - timestamp s) / segmentAdjustmentAnimationStepDuration s2)
               (segmentRatiosCurrent s2) (segmentRatiosTarget s2)), engine := e4\<rparr>"
    using ease_frame_shape[OF s4] by blast
  obtain e5 where e5: "s' = (move_rays (now - timestamp s) s4)\<lparr>engine := e5\<rparr>"
    using s' render_frame_shape by metis
  show "frameTimings s' = frameTimings s" using e5 e4 f2 by (simp add: move_rays_def Let_def)
  show "previousTimestamp s' = previousTimestamp s" using e5 e4 f2 by (simp add: move_rays_def Let_def)
  show "segmentRatiosTarget s' = segmentRatiosTarget s" using e5 e4 f2 by (simp add: move_rays_def Let_def)
  show "segmentRatiosCurrent s' =
           fst (ease_segments ((now - timestamp s) / segmentAdjustmentAnimationStepDuration s)
                  (segmentRatiosCurrent s) (segmentRatiosTarget s))"
    using e5 e4 f2 by (simp add: move_rays_def Let_def)
  show "timestamp s' = now" using e5 e4 f2 by (simp add: move_rays_def Let_def)
qed

lemma drawFrame_more_fields:
  assumes "drawFrame now s = Inr s'"
  shows "segmentAdjustmentAnimationStepDuration s' = segmentAdjustmentAnimationStepDuration s"
    and "rayMovementSpeed s' = rayMovementSpeed s"
    and "\<not> resizeOnNextDraw s \<Longrightarrow>
         rays s' = map (move_ray (js_div (Fin (now - timestamp s)) (rayMovementSpeed s))) (rays s)"
proof -
  define s2 where "s2 = (if resizeOnNextDraw s then doResizeCalculation (s\<lparr>timestamp := now\<rparr>)
                         else s\<lparr>timestamp := now\<rparr>)"
  obtain n rs k where r: "doResizeCalculation (s\<lparr>timestamp := now\<rparr>) =
     s\<lparr>timestamp := now, resizeOnNextDraw := False,
        engine := onResize (engine s), nRays := n, rays := rs, random_calls := k\<rparr>"
    using doResizeCalculation_shape[of "s\<lparr>timestamp := now\<rparr>"] by auto
  have f2: "segmentAdjustmentAnimationStepDuration s2 = segmentAdjustmentAnimationStepDuration s"
    "rayMovementSpeed s2 = rayMovementSpeed s"
    "\<not> resizeOnNextDraw s \<Longrightarrow> rays s2 = rays s"
    using r by (simp_all add: s2_def)
  obtain s4 where s4: "ease_frame (now - timestamp s) s2 = Inr s4"
    and s': "s' = render_frame now (move_rays (now - timestamp s) s4)"
    using assms unfolding drawFrame_def s2_def
    by (auto simp: Let_def split: sum.splits)
  obtain e4 where e4: "s4 = s2\<lparr>segmentRatiosCurrent :=
        fst (ease_segments ((now - timestamp s) / segmentAdjustmentAnimationStepDuration s2)
               (segmentRatiosCurrent s2) (segmentRatiosTarget s2)), engine := e4\<rparr>"
    using ease_frame_shape[OF s4] by blast
  obtain e5 where e5: "s' = (move_rays (now - timestamp s) s4)\<lparr>engine := e5\<rparr>"
    using s' render_frame_shape by metis
  show "segmentAdjustmentAnimationStepDuration s' = segmentAdjustmentAnimationStepDuration s"
    using e5 e4 f2 by (simp add: move_rays_def Let_def)
  show "rayMovementSpeed s' = rayMovementSpeed s"
    using e5 e4 f2 by (simp add: move_rays_def Let_def)
  show "rays s' = map (move_ray (js_div (Fin (now - timestamp s)) (rayMovementSpeed s))) (rays s)"
    if "\<not> resizeOnNextDraw s"
    using e5 e4 f2 that by (simp add: move_rays_def Let_def)
qed

lemma draw_frames_ratios:
  "draw_frames n deltaMs s = Inr s' \<Longrightarrow>
   segmentRatiosCurrent s' =
     ease_ticks n deltaMs (segmentAdjustmentAnimationStepDuration s)
       (segmentRatiosCurrent s) (segmentRatiosTarget s)"
proof (induction n arbitrary: s)
  case 0
  then show ?case by simp
next
  case (Suc n)
  then obtain s1 where d: "drawFrame (timestamp s + deltaMs) s = Inr s1"
    and r: "draw_frames n deltaMs s1 = Inr s'"
    by (auto split: sum.splits)
  have "segmentRatiosCurrent s1 =
          fst (ease_segments (deltaMs / segmentAdjustmentAnimationStepDuration s)
                 (segmentRatiosCurrent s) (segmentRatiosTarget s))"
    using drawFrame_fields(4)[OF d] by simp
  then show ?case
    using Suc.IH[OF r] drawFrame_fields(3)[OF d] drawFrame_more_fields(1)[OF d] by simp
qed

text \<open>
  C8. A push never leaves more than 120 samples in the window: it keeps the most recent 120
  of the old samples and the new one, dropping from the front. Starting from the empty
  window of the constructor, any number of pushes leaves the last 120 samples pushed.
  \<open>getCurrentFps\<close> is the arithmetic mean of the window, and 0 when the window is empty. A
  call of \<open>loop\<close> that is not skipped by the FPS limit pushes \<open>1000 / deltaTime\<close> (0 when no
  time has passed) in this way, and a skipped call leaves the window as it is.
\<close>

theorem fps_rolling_window:
  "length (push_timing sample timings) \<le> 120
   \<and> push_timing sample timings = drop (Suc (length timings) - 120) (timings @ [sample])
   \<and> fold push_timing samples [] = drop (length samples - 120) samples
   \<and> length (fold push_timing samples []) = min (length samples) 120
   \<and> getCurrentFps s =
        (if frameTimings s = [] then 0
         else sum_list (frameTimings s) / real (length (frameTimings s)))
   \<and> (case loop ts now s of
         Inl err \<Rightarrow> True
       | Inr s' \<Rightarrow>
           frameTimings s' =
             (let deltaTime = (case previousTimestamp s of None \<Rightarrow> 0 | Some p \<Rightarrow> ts - p)
              in if fpsLimitEnabled s \<and> deltaTime > 0 \<and> deltaTime < fpsLimit s
                 then frameTimings s
                 else push_timing (if deltaTime > 0 then 1000 / deltaTime else 0)
                        (frameTimings s)))"
proof -
  have f: "fold push_timing samples [] = drop (length samples - 120) samples"
    using fold_push_timing[of "[]" samples] by simp
  have g: "getCurrentFps s =
        (if frameTimings s = [] then 0
         else sum_list (frameTimings s) / real (length (frameTimings s)))"
    by (simp add: getCurrentFps_def foldl_plus_sum_list)
  define deltaTime where "deltaTime = (case previousTimestamp s of None \<Rightarrow> 0 | Some p \<Rightarrow> ts - p)"
  define skip where "skip \<longleftrightarrow> fpsLimitEnabled s \<and> deltaTime > 0 \<and> deltaTime < fpsLimit s"
  define s1 where "s1 = s\<lparr>previousTimestamp := Some ts,
                   frameTimings :=
                     push_timing (if deltaTime > 0 then 1000 / deltaTime else 0) (frameTimings s)\<rparr>"
  have l: "loop ts now s = (if skip then Inr s else drawFrame now s1)"
    by (simp add: loop_def Let_def deltaTime_def skip_def s1_def)
  have "case loop ts now s of
         Inl err \<Rightarrow> True
       | Inr s' \<Rightarrow>
           frameTimings s' =
             (if skip then frameTimings s
              else push_timing (if deltaTime > 0 then 1000 / deltaTime else 0) (frameTimings s))"
  proof (cases skip)
    case True
    then show ?thesis by (simp add: l)
  next
    case False
    show ?thesis
    proof (cases "drawFrame now s1")
      case (Inl err)
      then show ?thesis using False by (simp add: l)
    next
      case (Inr s')
      from drawFrame_fields(1)[OF Inr] show ?thesis using False Inr by (simp add: l s1_def)
    qed
  qed
  then have lp: "case loop ts now s of
         Inl err \<Rightarrow> True
       | Inr s' \<Rightarrow>
           frameTimings s' =
             (let deltaTime = (case previousTimestamp s of None \<Rightarrow> 0 | Some p \<Rightarrow> ts - p)
              in if fpsLimitEnabled s \<and> deltaTime > 0 \<and> deltaTime < fpsLimit s
                 then frameTimings s
                 else push_timing (if deltaTime > 0 then 1000 / deltaTime else 0)
                        (frameTimings s))"
    unfolding skip_def deltaTime_def Let_def .
  show ?thesis
    using length_push_timing[of sample timings] push_timing_drop[of sample timings] f g lp
    by simp
qed

section \<open>A new engine and a new indicator\<close>

lemma fold_generate_ray_length:
  "length (rays (fold (generate_ray c w) js s)) = length (rays s) + length js"
  by (induction js arbitrary: s) (simp_all add: generate_ray_def Let_def)

lemma generateRays_length: "length (rays (generateRays s)) = nat \<lceil>nRays s\<rceil>"
  by (simp add: generateRays_def Let_def split_def fold_generate_ray_length)

lemmas new_engine_unfold = new_WebGLEngine_def Let_def split_def textureSize_def initial_gl_def
  texImage2D_def renderbufferStorageMultisample_def bindTexture_def bindRenderbuffer_def
  bindFramebuffer_def

lemma new_engine_calls: "draw_calls (gl (new_WebGLEngine w h dpr)) = []"
  by (simp add: new_engine_unfold)

lemma new_engine_storage:
  "storage_size (gl (new_WebGLEngine w h dpr)) (Texture_storage Scene_texture)
     = (\<lceil>w * min dpr 2\<rceil>, \<lceil>h * min dpr 2\<rceil>)"
  by (simp add: new_engine_unfold)

lemma new_engine_fields:
  "textureSizeModifier (new_WebGLEngine w h dpr) = min dpr 2"
  "clientWidth (gl (new_WebGLEngine w h dpr)) = w"
  "clientHeight (gl (new_WebGLEngine w h dpr)) = h"
  by (simp_all add: new_engine_unfold)

text \<open>On a canvas of 100 by 100 pixels the constructor makes 20 rays.\<close>

lemma new_IrisIndicator_rays:
  "\<exists>s. new_IrisIndicator 100 100 1 rnd now = Inr s \<and> length (rays s) = 20 \<and> nRays s = 20
       \<and> length (rays (setRayCount 40 s)) = 20"
proof -
  define s0 where "s0 = \<lparr>engine = new_WebGLEngine 100 100 1,
                autoRayAdjustmentFactor = 5, nRays = 0, autoAdjustRays = True,
                segmentAdjustmentAnimationStepDuration = 100,
                msPerRotation = 240000, rayMovementSpeed = Fin 5000,
                segmentCounts = [0, 0, 0, 0], segmentRatiosTarget = [0, 0, 0, 0],
                segmentRatiosCurrent = [0, 0, 0, 0],
                segmentColors = [(1, 3 / 10, 3 / 10, 1), (3 / 10, 1, 3 / 10, 1),
                                 (2 / 10, 5 / 10, 1, 1), (1, 3 / 10, 1, 1)],
                fpsLimitEnabled = True, fpsLimit = real_of_int \<lfloor>(1000::real) / 30\<rfloor>,
                frameTimings = [], timestamp = now, previousTimestamp = None,
                resizeOnNextDraw = False, rays = [],
                Math_random = rnd, random_calls = 0\<rparr>"
  have ts: "textureSize (new_WebGLEngine 100 100 1) = (100, 100)"
    by (simp add: textureSize_def new_engine_fields)
  have c: "calculateOptimalRayCount s0 = 20"
    by (simp add: calculateOptimalRayCount_def s0_def ts Let_def)
  define s1 where "s1 = generateRays (s0\<lparr>nRays := 20\<rparr>)"
  have n: "new_IrisIndicator 100 100 1 rnd now = iris_setSegments s1"
    unfolding new_IrisIndicator_def Let_def s1_def using c by (simp add: s0_def)
  obtain rs k where sh: "s1 = s0\<lparr>nRays := 20, rays := rs, random_calls := k\<rparr>"
    using generateRays_shape[of "s0\<lparr>nRays := 20\<rparr>"] unfolding s1_def by auto
  have len: "length (rays s1) = 20" unfolding s1_def by (simp add: generateRays_length)
  have "length (segmentCounts s1) = 4" using sh by (simp add: s0_def)
  then obtain e where "iris_setSegments s1 = Inr (s1\<lparr>engine := e\<rparr>)"
    by (auto simp: iris_setSegments_def Let_def setSegments_def split: sum.splits)
  then show ?thesis using n len sh by (simp add: setRayCount_def)
qed

section \<open>The ray count\<close>

text \<open>
  C2. The claim is that \<open>setRayCount(n)\<close> switches the automatic adjustment off and
  regenerates the rays, so that the array then holds \<open>n\<close> fresh rays.
  \<open>setRayCount\<close> stores the count and clears the flag and does nothing else: the array holds
  the rays it held before, as many as before, until something else regenerates them. The
  sibling \<open>enableAutomaticRayAdjustment\<close> does regenerate: after it the array has as many
  rays as the count it has just computed. On a new indicator for a canvas of 100 by 100
  pixels, which has 20 rays, \<open>setRayCount(40)\<close> leaves 20 rays.
\<close>

theorem setRayCount_keeps_old_rays:
  "rays (setRayCount count s) = rays s
   \<and> random_calls (setRayCount count s) = random_calls s
   \<and> nRays (setRayCount count s) = count
   \<and> \<not> autoAdjustRays (setRayCount count s)
   \<and> length (rays (generateRays (setRayCount count s))) = nat \<lceil>count\<rceil>
   \<and> length (rays (enableAutomaticRayAdjustment s)) =
        nat \<lceil>nRays (enableAutomaticRayAdjustment s)\<rceil>
   \<and> (\<exists>s0. new_IrisIndicator 100 100 1 rnd now = Inr s0 \<and> length (rays s0) = 20
          \<and> length (rays (setRayCount 40 s0)) = 20)"
proof -
  have new: "\<exists>s0. new_IrisIndicator 100 100 1 rnd now = Inr s0 \<and> length (rays s0) = 20
          \<and> length (rays (setRayCount 40 s0)) = 20"
    using new_IrisIndicator_rays[of rnd now] by blast
  obtain rs k where
    "enableAutomaticRayAdjustment s =
       s\<lparr>autoAdjustRays := True,
          nRays := calculateOptimalRayCount (s\<lparr>autoAdjustRays := True\<rparr>),
          rays := rs, random_calls := k\<rparr>"
    using generateRays_shape[of "s\<lparr>autoAdjustRays := True,
          nRays := calculateOptimalRayCount (s\<lparr>autoAdjustRays := True\<rparr>)\<rparr>"]
    by (auto simp: enableAutomaticRayAdjustment_def Let_def)
  then have n: "nRays (enableAutomaticRayAdjustment s) =
                calculateOptimalRayCount (s\<lparr>autoAdjustRays := True\<rparr>)"
    by simp
  have "length (rays (enableAutomaticRayAdjustment s)) =
        nat \<lceil>calculateOptimalRayCount (s\<lparr>autoAdjustRays := True\<rparr>)\<rceil>"
    by (simp add: enableAutomaticRayAdjustment_def Let_def generateRays_length)
  with n new show ?thesis
    by (simp add: setRayCount_def generateRays_length)
qed

section \<open>The blur passes of a frame\<close>

lemmas gl_ops = bindFramebuffer_def bindTexture_def activeTexture_def bufferData_def
  uniformMatrix3fv_def uniform_pass_def uniform_blur_horizontal_def drawArrays_def
  setFramebuffer_def setFramebufferRectangle_def

lemma blur_iteration_simps:
  "draw_calls (fst (blur_iteration w h p st)) = draw_calls (fst st) @ [blur_call (fst st) p]"
  "u_pass (fst (blur_iteration w h p st)) = u_pass (fst st)"
  "active_texture (fst (blur_iteration w h p st)) = active_texture (fst st)"
  "snd (blur_iteration w h p st) = p mod 2"
  by (simp_all add: blur_iteration_def Let_def gl_ops blur_call_def)

lemma blur_loop_pass:
  "u_pass (fst (fold (blur_iteration w h) ps st)) = u_pass (fst st)"
  by (induction ps arbitrary: st) (simp_all add: blur_iteration_simps)

lemma blur_loop_count:
  "u_pass (fst st) = FRAGMENT_PASS_BLUR \<Longrightarrow>
   blur_draws (draw_calls (fst (fold (blur_iteration w h) ps st)))
     = blur_draws (draw_calls (fst st)) + length ps"
proof (induction ps arbitrary: st)
  case Nil
  then show ?case by simp
next
  case (Cons p ps)
  have "u_pass (fst (blur_iteration w h p st)) = FRAGMENT_PASS_BLUR"
    using Cons.prems by (simp add: blur_iteration_simps)
  from Cons.IH[OF this] Cons.prems show ?case
    by (simp add: blur_iteration_simps blur_draws_def blur_call_def)
qed

lemma blur_draws_snoc:
  "blur_draws (calls @ [c]) = blur_draws calls + (if dc_pass c = FRAGMENT_PASS_BLUR then 1 else 0)"
  by (simp add: blur_draws_def)

lemma last_blur_target_snoc:
  "last_blur_target (calls @ [c]) =
     (if dc_pass c = FRAGMENT_PASS_BLUR then dc_framebuffer c else last_blur_target calls)"
  by (simp add: last_blur_target_def Let_def)

lemma blur_loop_last:
  "u_pass (fst st) = FRAGMENT_PASS_BLUR \<Longrightarrow>
   snd (fold (blur_iteration w h) (ps @ [p]) st) = p mod 2 \<and>
   last_blur_target (draw_calls (fst (fold (blur_iteration w h) (ps @ [p]) st)))
     = Some (Pingpong_fb (p mod 2))"
  by (simp add: blur_iteration_simps last_blur_target_snoc blur_call_def blur_loop_pass)

lemma blur_loop_active:
  "active_texture (fst (fold (blur_iteration w h) ps st)) = active_texture (fst st)"
  by (induction ps arbitrary: st) (simp_all add: blur_iteration_simps)

lemma bloom_brightness_simps:
  "u_pass (bloom_brightness src w h g) = FRAGMENT_PASS_BLUR"
  "blur_draws (draw_calls (bloom_brightness src w h g)) = blur_draws (draw_calls g)"
  by (simp_all add: bloom_brightness_def Let_def gl_ops blur_draws_snoc)

lemma bloom_composite_call:
  "\<exists>c. draw_calls (bloom_composite src l w h g) = draw_calls g @ [c]
       \<and> dc_pass c = FRAGMENT_PASS_COMPOSITE
       \<and> dc_framebuffer c = Some (Pingpong_fb (l XOR 1))
       \<and> dc_texture1 c = Some (Pingpong_rbuf l)"
  by (simp add: bloom_composite_def Let_def gl_ops)

lemma bloomPass_unfold:
  "bloomPass src n e =
     (let w = real_of_int (fst (textureSize e)); h = real_of_int (snd (textureSize e));
          F = fold (blur_iteration w h) [0..<n * 2] (bloom_brightness src w h (gl e), 0)
      in (Pingpong_rbuf (snd F XOR 1), e\<lparr>gl := bloom_composite src (snd F) w h (fst F)\<rparr>))"
  by (simp add: bloomPass_def Let_def split_def)

lemma bloomPass_blur_draws:
  "blur_draws (draw_calls (gl (snd (bloomPass src n e)))) = blur_draws (draw_calls (gl e)) + n * 2"
proof -
  define w where "w = real_of_int (fst (textureSize e))"
  define h where "h = real_of_int (snd (textureSize e))"
  define F where "F = fold (blur_iteration w h) [0..<n * 2] (bloom_brightness src w h (gl e), 0)"
  have cF: "blur_draws (draw_calls (fst F)) = blur_draws (draw_calls (gl e)) + n * 2"
    using blur_loop_count[of "(bloom_brightness src w h (gl e), 0)" w h "[0..<n * 2]"]
    by (simp add: F_def bloom_brightness_simps)
  obtain c where "draw_calls (bloom_composite src (snd F) w h (fst F)) = draw_calls (fst F) @ [c]"
    and "dc_pass c = FRAGMENT_PASS_COMPOSITE"
    using bloom_composite_call by blast
  then have "blur_draws (draw_calls (bloom_composite src (snd F) w h (fst F)))
             = blur_draws (draw_calls (fst F))"
    by (simp add: blur_draws_snoc)
  then show ?thesis using cF
    by (simp add: bloomPass_unfold Let_def F_def w_def h_def)
qed

lemma draw_scene_blur_draws:
  "blur_draws (draw_calls (draw_scene msaa d c m w h g)) = blur_draws (draw_calls g)"
  by (simp add: draw_scene_def Let_def gl_ops blur_draws_def)

lemma draw_present_blur_draws:
  "blur_draws (draw_calls (draw_present t w h g)) = blur_draws (draw_calls g)"
  by (simp add: draw_present_def Let_def gl_ops blur_draws_def)

lemma draw_blur_draws:
  "blur_draws (draw_calls (gl (draw d c m e))) =
     blur_draws (draw_calls (gl e)) + (if bloomEnabled e then nBloomPasses e * 2 else 0)"
proof (cases "bloomEnabled e")
  case True
  then show ?thesis
    by (simp add: draw_def Let_def split_def draw_present_blur_draws bloomPass_blur_draws
        draw_scene_blur_draws)
next
  case False
  then show ?thesis
    by (simp add: draw_def Let_def split_def draw_present_blur_draws draw_scene_blur_draws)
qed

text \<open>
  C3, as the code has it. With bloom enabled, one \<open>draw\<close> runs sixteen single-direction blur
  draws for each unit of bloom intensity: \<open>setBloomIntensity(k)\<close> stores \<open>k * 8\<close> blur passes,
  and \<open>bloomPass\<close> runs the loop twice that often, since every pass blurs once in each
  direction. That is 16, 32, 64 or 128 blur draws for the intensities 1, 2, 4 and 8.
\<close>

theorem blur_pass_count:
  "blur_draws (draw_calls (gl (draw d c m (setBloomEnabled True (setBloomIntensity k e)))))
     = blur_draws (draw_calls (gl e)) + intensity_value k * 16"
  by (simp add: draw_blur_draws setBloomEnabled_def setBloomIntensity_def)

text \<open>
  The claim's count of \<open>k * 8\<close> blur draws fails already for intensity 1 on a new engine: the
  frame has 16 blur draws, not 8.
\<close>

theorem blur_pass_count_counterexample:
  "blur_draws (draw_calls (gl (draw [] 0 []
      (setBloomEnabled True (setBloomIntensity Intensity_1 (new_WebGLEngine 100 100 1))))))
   \<noteq> 1 * 8"
proof -
  have "blur_draws (draw_calls (gl (new_WebGLEngine 100 100 1))) = 0"
    by (simp add: new_engine_calls blur_draws_def)
  then show ?thesis
    by (simp add: draw_blur_draws setBloomEnabled_def setBloomIntensity_def)
qed

text \<open>
  C9. In a bloom invocation with at least one blur pass the last blur draw wrote into the
  second ping-pong slot (index 1). The composite draw, which is the last draw of the
  invocation, reads that slot's texture on texture unit 1 and writes into the framebuffer of
  the first slot (index 0), and the texture \<open>bloomPass\<close> returns is the texture of the first
  slot: the composite target is never the slot that holds the blur result.
\<close>

theorem bloom_composite_slot:
  assumes "1 \<le> n"
  shows "dc_pass (last (draw_calls (gl (snd (bloomPass src n e))))) = FRAGMENT_PASS_COMPOSITE
     \<and> last_blur_target (draw_calls (gl (snd (bloomPass src n e)))) = Some (Pingpong_fb 1)
     \<and> dc_texture1 (last (draw_calls (gl (snd (bloomPass src n e))))) = Some (Pingpong_rbuf 1)
     \<and> dc_framebuffer (last (draw_calls (gl (snd (bloomPass src n e))))) = Some (Pingpong_fb 0)
     \<and> fst (bloomPass src n e) = Pingpong_rbuf 0"
proof -
  define w where "w = real_of_int (fst (textureSize e))"
  define h where "h = real_of_int (snd (textureSize e))"
  define F where "F = fold (blur_iteration w h) [0..<n * 2] (bloom_brightness src w h (gl e), 0)"
  define k where "k = n * 2 - 1"
  have k: "n * 2 = Suc k" and odd: "k mod 2 = 1"
    using assms unfolding k_def by presburger+
  have upt: "[0..<n * 2] = [0..<k] @ [k]" using k by simp
  have l: "snd F = 1" and t: "last_blur_target (draw_calls (fst F)) = Some (Pingpong_fb 1)"
    using blur_loop_last[of "(bloom_brightness src w h (gl e), 0)" w h "[0..<k]" k] odd
    unfolding F_def upt by (simp_all add: bloom_brightness_simps)
  obtain c where c: "draw_calls (bloom_composite src (snd F) w h (fst F)) = draw_calls (fst F) @ [c]"
    "dc_pass c = FRAGMENT_PASS_COMPOSITE" "dc_framebuffer c = Some (Pingpong_fb (snd F XOR 1))"
    "dc_texture1 c = Some (Pingpong_rbuf (snd F))"
    using bloom_composite_call by blast
  have b: "bloomPass src n e =
      (Pingpong_rbuf (snd F XOR 1), e\<lparr>gl := bloom_composite src (snd F) w h (fst F)\<rparr>)"
    by (simp add: bloomPass_unfold Let_def F_def w_def h_def)
  have x: "(1::nat) XOR 1 = 0" by simp
  show ?thesis using c t l b x by (simp add: last_blur_target_snoc)
qed

theorem bloom_composite_slot_witness:
  "(1::nat) \<le> 8
   \<and> last_blur_target (draw_calls (gl (snd (bloomPass Scene_texture 8 (new_WebGLEngine 100 100 1)))))
       = Some (Pingpong_fb 1)
   \<and> dc_framebuffer (last (draw_calls (gl (snd (bloomPass Scene_texture 8 (new_WebGLEngine 100 100 1))))))
       = Some (Pingpong_fb 0)
   \<and> fst (bloomPass Scene_texture 8 (new_WebGLEngine 100 100 1)) = Pingpong_rbuf 0"
  using bloom_composite_slot [of 8 Scene_texture "new_WebGLEngine 100 100 1"] by simp

section \<open>Reallocation of the offscreen targets\<close>

lemma onResize_effect:
  "storage_size (gl (onResize e)) (Texture_storage (Pingpong_rbuf 0)) = textureSize e"
  "storage_size (gl (onResize e)) (Texture_storage (Pingpong_rbuf 1)) = textureSize e"
  "storage_size (gl (onResize e)) (Texture_storage Scene_texture) = textureSize e"
  "storage_size (gl (onResize e)) (Renderbuffer_storage Scene_rbMSAA) = textureSize e"
  "textureSize (onResize e) = textureSize e"
  "allocations (gl (onResize e)) = allocations (gl e) @
     [(Texture_storage (Pingpong_rbuf 0), textureSize e),
      (Texture_storage (Pingpong_rbuf 1), textureSize e),
      (Texture_storage Scene_texture, textureSize e),
      (Renderbuffer_storage Scene_rbMSAA, textureSize e)]"
  by (simp_all add: onResize_def Let_def split_def texImage2D_def
      renderbufferStorageMultisample_def bindTexture_def bindRenderbuffer_def textureSize_def)

text \<open>
  C4, as the code has it. \<open>setTextureSizeModifier\<close> stores the modifier (at most 2) and runs
  \<open>onResize\<close>: both ping-pong textures, the scene texture and the multisampled renderbuffer
  get new storage at the new texture size, and the indicator's setter also flags a resize
  for the next frame. \<open>setMSAAEnabled\<close> stores its flag and does nothing else: the WebGL state,
  with the storage of every target, is what it was, and no resize is flagged.
\<close>

theorem resize_on_scale_change:
  "storage_size (gl (setTextureSizeModifier m e)) (Texture_storage (Pingpong_rbuf 0))
     = textureSize (setTextureSizeModifier m e)
   \<and> storage_size (gl (setTextureSizeModifier m e)) (Texture_storage (Pingpong_rbuf 1))
     = textureSize (setTextureSizeModifier m e)
   \<and> storage_size (gl (setTextureSizeModifier m e)) (Texture_storage Scene_texture)
     = textureSize (setTextureSizeModifier m e)
   \<and> storage_size (gl (setTextureSizeModifier m e)) (Renderbuffer_storage Scene_rbMSAA)
     = textureSize (setTextureSizeModifier m e)
   \<and> textureSize (setTextureSizeModifier m e)
     = (\<lceil>clientWidth (gl e) * min m 2\<rceil>, \<lceil>clientHeight (gl e) * min m 2\<rceil>)
   \<and> setTextureSizeModifier m e = onResize (e\<lparr>textureSizeModifier := min m 2\<rparr>)
   \<and> length (allocations (gl (setTextureSizeModifier m e))) = length (allocations (gl e)) + 4
   \<and> resizeOnNextDraw (iris_setTextureSizeModifier m s)
   \<and> gl (setMSAAEnabled b e) = gl e
   \<and> textureSizeModifier (setMSAAEnabled b e) = textureSizeModifier e
   \<and> msaaEnabled (setMSAAEnabled b e) = b
   \<and> resizeOnNextDraw (iris_setMSAAEnabled b s) = resizeOnNextDraw s
   \<and> gl (engine (iris_setMSAAEnabled b s)) = gl (engine s)"
proof -
  let ?e = "e\<lparr>textureSizeModifier := min m 2\<rparr>"
  have t: "textureSize ?e = (\<lceil>clientWidth (gl e) * min m 2\<rceil>, \<lceil>clientHeight (gl e) * min m 2\<rceil>)"
    by (simp add: textureSize_def)
  have s: "setTextureSizeModifier m e = onResize ?e" by (simp add: setTextureSizeModifier_def)
  have a: "length (allocations (gl (onResize ?e))) = length (allocations (gl e)) + 4"
    by (simp add: onResize_effect(6))
  have i: "resizeOnNextDraw (iris_setTextureSizeModifier m s)"
    by (simp add: iris_setTextureSizeModifier_def iris_onResize_def)
  have x: "gl (setMSAAEnabled b e) = gl e" "textureSizeModifier (setMSAAEnabled b e) = textureSizeModifier e"
    "msaaEnabled (setMSAAEnabled b e) = b"
    "resizeOnNextDraw (iris_setMSAAEnabled b s) = resizeOnNextDraw s"
    "gl (engine (iris_setMSAAEnabled b s)) = gl (engine s)"
    by (simp_all add: setMSAAEnabled_def iris_setMSAAEnabled_def)
  show ?thesis
    unfolding s using onResize_effect(1-5)[of ?e] t a i x by simp
qed

text \<open>
  The claim that a change of the anti-aliasing setting reallocates the targets at the
  texture size fails on an engine whose canvas has grown from 100 to 200 pixels since the
  last allocation: after \<open>setMSAAEnabled(false)\<close> the scene texture still has its old size,
  and no allocation was made.
\<close>

theorem msaa_change_counterexample:
  "storage_size (gl (setMSAAEnabled False (canvas_resized 200 200 (new_WebGLEngine 100 100 1))))
      (Texture_storage Scene_texture) = (100, 100)
   \<and> textureSize (setMSAAEnabled False (canvas_resized 200 200 (new_WebGLEngine 100 100 1)))
      = (200, 200)
   \<and> allocations (gl (setMSAAEnabled False (canvas_resized 200 200 (new_WebGLEngine 100 100 1))))
      = allocations (gl (canvas_resized 200 200 (new_WebGLEngine 100 100 1)))"
  by (simp add: setMSAAEnabled_def canvas_resized_def new_engine_storage textureSize_def
      new_engine_fields)

section \<open>The blend ratio\<close>

lemma scan_not_NaN:
  "b \<noteq> NaN \<Longrightarrow> fold blend_scan_step segs b \<noteq> NaN"
proof (induction segs arbitrary: b)
  case Nil
  then show ?case by simp
next
  case (Cons seg segs)
  have "blend_scan_step seg b \<noteq> NaN"
    using Cons.prems by (cases "ratio seg"; cases b) (auto simp: blend_scan_step_def)
  then show ?case using Cons.IH by simp
qed

lemma clamp_Fin:
  "Math_max (Math_min (Fin a) (Fin (1 / 10))) (Fin (1 / 100)) = Fin (max (1 / 100) (min (1 / 10) a))"
  by auto

lemma clamp_range:
  assumes "x \<noteq> NaN"
  shows "\<exists>y. Math_max (Math_min x (Fin (1 / 10))) (Fin (1 / 100)) = Fin y \<and> 1 / 100 \<le> y \<and> y \<le> 1 / 10"
proof (cases x)
  case (Fin a)
  have "1 / 100 \<le> max (1 / 100) (min (1 / 10) a)" "max (1 / 100) (min (1 / 10) a) \<le> 1 / 10"
    by simp_all
  then show ?thesis unfolding Fin clamp_Fin by blast
next
  case PosInf
  have "Math_max (Math_min PosInf (Fin (1 / 10))) (Fin (1 / 100)) = Fin (1 / 10)" by simp
  then show ?thesis unfolding PosInf by (intro exI[of _ "1 / 10"]) simp
next
  case NegInf
  have "Math_max (Math_min NegInf (Fin (1 / 10))) (Fin (1 / 100)) = Fin (1 / 100)" by simp
  then show ?thesis unfolding NegInf by (intro exI[of _ "1 / 100"]) simp
next
  case NaN
  then show ?thesis using assms by simp
qed

lemma scan_finite_from_Fin:
  "map ratio segs = map Fin rs \<Longrightarrow>
   fold blend_scan_step segs (Fin m) = Fin (fold min (filter (\<lambda>r. r \<noteq> 0) rs) m)"
proof (induction segs arbitrary: rs m)
  case Nil
  then show ?case by simp
next
  case (Cons seg segs)
  then obtain r rs' where rs: "rs = r # rs'" and r: "ratio seg = Fin r"
    and rest: "map ratio segs = map Fin rs'" by (cases rs) auto
  have step: "blend_scan_step seg (Fin m) = (if r = 0 then Fin m else Fin (min r m))"
    using r by (simp add: blend_scan_step_def min_def)
  show ?case
  proof (cases "r = 0")
    case True
    then show ?thesis using Cons.IH[OF rest, of m] rs step by simp
  next
    case False
    then show ?thesis using Cons.IH[OF rest, of "min r m"] rs step by simp
  qed
qed

lemma scan_finite:
  "map ratio segs = map Fin rs \<Longrightarrow>
   fold blend_scan_step segs PosInf =
     (if filter (\<lambda>r. r \<noteq> 0) rs = [] then PosInf
      else Fin (Min (set (filter (\<lambda>r. r \<noteq> 0) rs))))"
proof (induction segs arbitrary: rs)
  case Nil
  then show ?case by simp
next
  case (Cons seg segs)
  then obtain r rs' where rs: "rs = r # rs'" and r: "ratio seg = Fin r"
    and rest: "map ratio segs = map Fin rs'" by (cases rs) auto
  show ?case
  proof (cases "r = 0")
    case True
    then have "blend_scan_step seg PosInf = PosInf" using r by (simp add: blend_scan_step_def)
    then show ?thesis using Cons.IH[OF rest] rs True by simp
  next
    case False
    then have "blend_scan_step seg PosInf = Fin r" using r by (simp add: blend_scan_step_def)
    moreover have "Min (set (r # filter (\<lambda>r. r \<noteq> 0) rs')) = fold min (filter (\<lambda>r. r \<noteq> 0) rs') r"
      by (rule Min.set_eq_fold)
    ultimately show ?thesis using scan_finite_from_Fin[OF rest, of r] rs False by simp
  qed
qed

lemma setSegments_blend:
  "segments \<noteq> [] \<Longrightarrow> uploaded_blendRatio (setSegments segments e) = Some (blend_clamped segments)"
  by (simp add: setSegments_def Let_def uploaded_blendRatio_def)

lemma red_segments_simps:
  "length (red_segments ratios) = length ratios"
  "map ratio (red_segments ratios) = map Fin ratios"
  by (simp_all add: red_segments_def comp_def)

text \<open>
  C7. For four segments with finite ratios, one of them nonzero, \<open>setSegments\<close> uploads as
  blend ratio half of the smallest nonzero ratio clamped into the interval from 0.01 to 0.1,
  which is the blend width of the specification. When the smallest nonzero ratio is 0.001
  the blend ratio is exactly 0.01, and when it is 0.5 the blend ratio is exactly 0.1.
\<close>

theorem blend_width_clamp:
  assumes "length segments = MAX_SUPPORTED_SEGMENTS" and "map ratio segments = map Fin ratios"
    and "\<exists>r \<in> set ratios. r \<noteq> 0"
  shows "uploaded_blendRatio (setSegments segments e) = Some (Fin (spec_blend_width ratios))
     \<and> (Min (set (filter (\<lambda>r. r \<noteq> 0) ratios)) = 1 / 1000
          \<longrightarrow> uploaded_blendRatio (setSegments segments e) = Some (Fin (1 / 100)))
     \<and> (Min (set (filter (\<lambda>r. r \<noteq> 0) ratios)) = 1 / 2
          \<longrightarrow> uploaded_blendRatio (setSegments segments e) = Some (Fin (1 / 10)))"
proof -
  have ne: "segments \<noteq> []" using assms(1) by (auto simp: MAX_SUPPORTED_SEGMENTS_def)
  have nz: "filter (\<lambda>r. r \<noteq> 0) ratios \<noteq> []" using assms(3) by (auto simp: filter_empty_conv)
  have "blend_scan segments = Fin (Min (set (filter (\<lambda>r. r \<noteq> 0) ratios)))"
    using scan_finite[OF assms(2)] nz by (simp add: blend_scan_def)
  then have c: "blend_clamped segments = Fin (spec_blend_width ratios)"
    by (simp add: blend_clamped_def blend_halved_def spec_blend_width_def clamp_Fin
        del: Math_max.simps Math_min.simps)
  have "Min (set (filter (\<lambda>r. r \<noteq> 0) ratios)) = 1 / 1000 \<longrightarrow> spec_blend_width ratios = 1 / 100"
    by (simp add: spec_blend_width_def)
  moreover have "Min (set (filter (\<lambda>r. r \<noteq> 0) ratios)) = 1 / 2 \<longrightarrow> spec_blend_width ratios = 1 / 10"
    by (simp add: spec_blend_width_def)
  ultimately show ?thesis using setSegments_blend[OF ne, of e] c by simp
qed

theorem blend_width_clamp_witness:
  "length (red_segments [1 / 1000, 0, 999 / 1000, 0]) = MAX_SUPPORTED_SEGMENTS
   \<and> map ratio (red_segments [1 / 1000, 0, 999 / 1000, 0]) = map Fin [1 / 1000, 0, 999 / 1000, 0]
   \<and> (\<exists>r \<in> set [1 / 1000, 0, 999 / 1000, 0 :: real]. r \<noteq> 0)
   \<and> uploaded_blendRatio (setSegments (red_segments [1 / 1000, 0, 999 / 1000, 0])
        (new_WebGLEngine 100 100 1)) = Some (Fin (1 / 100))"
proof -
  have h: "length (red_segments [1 / 1000, 0, 999 / 1000, 0]) = MAX_SUPPORTED_SEGMENTS"
    "map ratio (red_segments [1 / 1000, 0, 999 / 1000, 0]) = map Fin [1 / 1000, 0, 999 / 1000, 0]"
    "\<exists>r \<in> set [1 / 1000, 0, 999 / 1000, 0 :: real]. r \<noteq> 0"
    by (simp_all add: red_segments_simps MAX_SUPPORTED_SEGMENTS_def)
  have m: "Min (set (filter (\<lambda>r. r \<noteq> 0) [1 / 1000, 0, 999 / 1000, 0 :: real])) = 1 / 1000"
    by simp
  have u: "uploaded_blendRatio (setSegments (red_segments [1 / 1000, 0, 999 / 1000, 0])
        (new_WebGLEngine 100 100 1)) = Some (Fin (1 / 100))"
    using blend_width_clamp [OF h, of "new_WebGLEngine 100 100 1", THEN conjunct2, THEN conjunct1] m
    by (rule mp)
  from h u show ?thesis by (intro conjI)
qed

text \<open>
  C10. For four segments with any ratios, \<open>setSegments\<close> completes and uploads a finite blend
  ratio between 0.01 and 0.1; the scan and the halving never yield NaN, and the halving is
  the division by the constant 2: it halves a finite value and leaves an infinity as it is.
  When all four ratios are zero the scan leaves \<open>Infinity\<close>, the halving too, and the clamp
  gives exactly 0.1.
\<close>

theorem blend_ratio_well_defined:
  assumes "length segments = MAX_SUPPORTED_SEGMENTS"
  shows "(map ratio segments = [Fin 0, Fin 0, Fin 0, Fin 0] \<longrightarrow>
            blend_scan segments = PosInf \<and> blend_halved segments = PosInf
            \<and> uploaded_blendRatio (setSegments segments e) = Some (Fin (1 / 10)))
         \<and> blend_scan segments \<noteq> NaN
         \<and> blend_halved segments \<noteq> NaN
         \<and> blend_halved segments =
             (case blend_scan segments of Fin a \<Rightarrow> Fin (a / 2) | other \<Rightarrow> other)
         \<and> (\<exists>y. uploaded_blendRatio (setSegments segments e) = Some (Fin y)
                \<and> 1 / 100 \<le> y \<and> y \<le> 1 / 10)"
proof -
  have ne: "segments \<noteq> []" using assms(1) by (auto simp: MAX_SUPPORTED_SEGMENTS_def)
  note up = setSegments_blend[OF ne, of e]
  have z: "map ratio segments = [Fin 0, Fin 0, Fin 0, Fin 0] \<longrightarrow> blend_scan segments = PosInf"
  proof
    assume "map ratio segments = [Fin 0, Fin 0, Fin 0, Fin 0]"
    then have "map ratio segments = map Fin [0, 0, 0, 0]" by simp
    from scan_finite[OF this] show "blend_scan segments = PosInf" by (simp add: blend_scan_def)
  qed
  have s: "blend_scan segments \<noteq> NaN"
    using scan_not_NaN[of PosInf segments] by (simp add: blend_scan_def)
  have hc: "blend_halved segments =
             (case blend_scan segments of Fin a \<Rightarrow> Fin (a / 2) | other \<Rightarrow> other)"
    using s by (cases "blend_scan segments") (simp_all add: blend_halved_def)
  then have h: "blend_halved segments \<noteq> NaN" using s by (cases "blend_scan segments") simp_all
  obtain y where y: "blend_clamped segments = Fin y" "1 / 100 \<le> y" "y \<le> 1 / 10"
    using clamp_range[OF h] unfolding blend_clamped_def by blast
  have zz: "blend_scan segments = PosInf \<longrightarrow> blend_halved segments = PosInf
            \<and> blend_clamped segments = Fin (1 / 10)"
    by (simp add: blend_clamped_def blend_halved_def)
  have zall: "map ratio segments = [Fin 0, Fin 0, Fin 0, Fin 0] \<longrightarrow>
            blend_scan segments = PosInf \<and> blend_halved segments = PosInf
            \<and> uploaded_blendRatio (setSegments segments e) = Some (Fin (1 / 10))"
    using z zz up by simp
  have ex: "\<exists>y. uploaded_blendRatio (setSegments segments e) = Some (Fin y)
                \<and> 1 / 100 \<le> y \<and> y \<le> 1 / 10"
    using y up by simp
  from zall s h hc ex show ?thesis by (intro conjI)
qed

theorem blend_ratio_well_defined_witness:
  "length (red_segments [0, 0, 0, 0]) = MAX_SUPPORTED_SEGMENTS
   \<and> map ratio (red_segments [0, 0, 0, 0]) = [Fin 0, Fin 0, Fin 0, Fin 0]
   \<and> blend_scan (red_segments [0, 0, 0, 0]) = PosInf
   \<and> uploaded_blendRatio (setSegments (red_segments [0, 0, 0, 0]) (new_WebGLEngine 100 100 1))
       = Some (Fin (1 / 10))"
proof -
  have h: "length (red_segments [0, 0, 0, 0]) = MAX_SUPPORTED_SEGMENTS"
    by (simp add: red_segments_simps MAX_SUPPORTED_SEGMENTS_def)
  have m: "map ratio (red_segments [0, 0, 0, 0]) = [Fin 0, Fin 0, Fin 0, Fin 0]"
    by (simp add: red_segments_simps)
  have z: "blend_scan (red_segments [0, 0, 0, 0]) = PosInf
           \<and> blend_halved (red_segments [0, 0, 0, 0]) = PosInf
           \<and> uploaded_blendRatio (setSegments (red_segments [0, 0, 0, 0]) (new_WebGLEngine 100 100 1))
               = Some (Fin (1 / 10))"
    using blend_ratio_well_defined [OF h, of "new_WebGLEngine 100 100 1", THEN conjunct1] m
    by (rule mp)
  from h m z show ?thesis by simp
qed

end
